theory Spec2Isabelle
  imports Main "HOL-Library.Multiset"
begin

section \<open>Strings: lower-casing, substring test, decimal rendering\<close>

text \<open>
  The handlers of \<^verbatim>\<open>server/vite.ts\<close> classify a signup by
  \<^verbatim>\<open>s.fields.Status?.toLowerCase() || ""\<close> followed by \<^verbatim>\<open>status.includes(...)\<close>.
  Strings are modelled as lists of 8-bit characters; \<open>toLowerCase\<close> maps the letters
  A to Z to a to z and leaves every other character as it is, which is what the
  JavaScript method does on ASCII text (all status strings written by the server are ASCII).
\<close>

definition charToLower :: "char \<Rightarrow> char" where
  "charToLower c =
     (case map_of (zip ''ABCDEFGHIJKLMNOPQRSTUVWXYZ'' ''abcdefghijklmnopqrstuvwxyz'') c of
        None \<Rightarrow> c
      | Some l \<Rightarrow> l)"

definition toLowerCase :: "string \<Rightarrow> string" where
  "toLowerCase s = map charToLower s"

text \<open>\<^verbatim>\<open>s.startsWith(sub)\<close>, the auxiliary of the substring test.\<close>

fun startsWith :: "string \<Rightarrow> string \<Rightarrow> bool" where
  "startsWith s [] = True"
| "startsWith [] (b # bs) = False"
| "startsWith (a # as) (b # bs) = (a = b \<and> startsWith as bs)"

text \<open>\<^verbatim>\<open>s.includes(sub)\<close>: \<open>sub\<close> occurs in \<open>s\<close> at some position.\<close>

fun str_includes :: "string \<Rightarrow> string \<Rightarrow> bool" where
  "str_includes [] sub = startsWith [] sub"
| "str_includes (a # as) sub = (startsWith (a # as) sub \<or> str_includes as sub)"

text \<open>
  A template literal \<^verbatim>\<open>${index + 1}\<close> renders a non-negative integer in decimal,
  without leading zeros.
\<close>

definition digitChar :: "nat \<Rightarrow> char" where
  "digitChar d = ''0123456789'' ! d"

function showNat :: "nat \<Rightarrow> string" where
  "showNat n = (if n < 10 then [digitChar n] else showNat (n div 10) @ [digitChar (n mod 10)])"
  by pat_completeness auto
termination
  by (relation "measure (\<lambda>n. n)") auto

declare showNat.simps [simp del]

section \<open>Data model\<close>

text \<open>
  A normalised signup as \<^verbatim>\<open>normalizeSignup\<close> of \<^verbatim>\<open>server/lib/airtable.ts\<close>
  returns it: the record id and the fields. \<open>Status\<close> is always a string there
  (\<^verbatim>\<open>fields.Status || "UNKNOWN"\<close>) and \<open>Is Driver\<close> always a boolean.
\<close>

record Signup =
  signupId :: string
  ParticipantName :: string
  TripID :: "string list"
  IsDriver :: bool
  Status :: string
  Email :: "string option"
  Phone :: "string option"

text \<open>
  The three fields of a trip that the handlers read. Airtable leaves an empty field out
  of the record, hence the options; each handler reads a field as \<^verbatim>\<open>field || 0\<close>
  and does not validate it. The values are numbers of the store, modelled as integers
  (whole numbers, of either sign): a negative number is kept by \<^verbatim>\<open>|| 0\<close> and used
  as it is.
\<close>

record Trip =
  CapacityIncludingLeads :: "int option"
  AdditionalDriversRequired :: "int option"
  NonDriversCapacity :: "int option"

definition orZero :: "int option \<Rightarrow> int" where
  "orZero v = (case v of None \<Rightarrow> 0 | Some n \<Rightarrow> n)"

text \<open>The error responses of the handlers (HTTP 400 and 404), named as in the specification.\<close>

datatype error =
    InvalidCapacity
  | EmptyPool
  | RosterFull
  | NoDriverSpots
  | NoNonDriverSpots
  | WaitlistEmpty
  | NoDriversOnWaitlist
  | NoNonDriversOnWaitlist
  | NoSuitableParticipant
  | ParticipantNotFound
  | NoPendingProposal
  | ProposalMismatch
  | UpstreamFailure

section \<open>Classification of signups by status\<close>

definition statusLower :: "Signup \<Rightarrow> string" where
  "statusLower s = toLowerCase (Status s)"

text \<open>The roster filter: contains "selected" or "on trip", and not "dropped".\<close>

definition rosterFilter :: "Signup \<Rightarrow> bool" where
  "rosterFilter s =
     (let status = statusLower s;
          isOnRoster = str_includes status ''selected'' \<or> str_includes status ''on trip'';
          isDropped = str_includes status ''dropped''
      in isOnRoster \<and> \<not> isDropped)"

definition waitlistFilter :: "Signup \<Rightarrow> bool" where
  "waitlistFilter s = (let status = statusLower s in str_includes status ''waitlist'')"

definition droppedFilter :: "Signup \<Rightarrow> bool" where
  "droppedFilter s = (let status = statusLower s in str_includes status ''dropped'')"

text \<open>
  The response of \<^verbatim>\<open>GET /api/airtable/signups/:tripId\<close>: the three views and the
  number of drivers on the roster.
\<close>

record SignupsResponse =
  signups :: "Signup list"
  roster :: "Signup list"
  waitlist :: "Signup list"
  dropped :: "Signup list"
  driverCount :: nat

definition getSignups :: "Signup list \<Rightarrow> SignupsResponse" where
  "getSignups fetched =
     (let r = filter rosterFilter fetched
      in \<lparr> signups = fetched,
           roster = r,
           waitlist = filter waitlistFilter fetched,
           dropped = filter droppedFilter fetched,
           driverCount = length (filter IsDriver r) \<rparr>)"

section \<open>Status strings written by the server\<close>

text \<open>
  \<^verbatim>\<open>isDriver ? "Selected (driver)" : "Selected (nondriver)"\<close>, the expression used by
  the approval, by the promotion from the waitlist and by the re-admission.
\<close>

definition selectedStatus :: "bool \<Rightarrow> string" where
  "selectedStatus isDriver = (if isDriver then ''Selected (driver)'' else ''Selected (nondriver)'')"

text \<open>The two template literals of the approval, for the array index \<open>index\<close>.\<close>

definition waitlistDriverStatus :: "nat \<Rightarrow> string" where
  "waitlistDriverStatus index = ''Waitlist (driver) - '' @ showNat (index + 1)"

definition waitlistNonDriverStatus :: "nat \<Rightarrow> string" where
  "waitlistNonDriverStatus index = ''Waitlist (nondriver) - '' @ showNat (index + 1)"

text \<open>
  The template literal \<^verbatim>\<open>`Dropped- ${todayDate}`\<close> of the drop handler.
  \<open>todayDate\<close> is what the library call \<^verbatim>\<open>format(new Date(), "MM/dd/yyyy")\<close>
  returns, a date written with digits and slashes; it is a parameter of the model.
\<close>

definition droppedStatus :: "string \<Rightarrow> string" where
  "droppedStatus todayDate = ''Dropped- '' @ todayDate"

section \<open>The persistence layer: requests to the record store\<close>

text \<open>
  The raw signup record of \<^verbatim>\<open>server/lib/airtable.ts\<close> (\<open>AirtableSignup\<close>): an id and
  a dictionary of fields whose values are strings, arrays of strings or arrays of
  booleans and nulls.
\<close>

datatype fieldValue =
    StringValue string
  | StringArray "string list"
  | BoolArray "bool option list"

record AirtableSignup =
  recId :: string
  recFields :: "string \<rightharpoonup> fieldValue"

text \<open>
  The two requests that \<^verbatim>\<open>airtable.ts\<close> can send for a signup: \<open>PATCH\<close> with a JSON body
  \<^verbatim>\<open>{ fields: airtableUpdates }\<close> (\<open>updateSignup\<close>) and \<open>DELETE\<close> (\<open>deleteSignup\<close>).
\<close>

datatype request =
    PATCH string "(string \<times> fieldValue) list"
  | DELETE string

text \<open>
  \<open>updateSignup\<close>. The only key of \<open>updates\<close> that the function reads is \<open>Status\<close>, so
  the model takes that entry alone (\<open>None\<close> when the key is absent). It is copied into
  the body of the request, with the two legacy names mapped.
\<close>

definition updateSignup :: "string \<Rightarrow> string option \<Rightarrow> request" where
  "updateSignup signupId' updatesStatus =
     PATCH signupId'
       (case updatesStatus of
          None \<Rightarrow> []
        | Some st \<Rightarrow>
            [(''Status'',
              StringValue (if st = ''Roster'' then ''ON TRIP''
                           else if st = ''Waitlist'' then ''WAITLIST''
                           else st))])"

definition deleteSignup :: "string \<Rightarrow> request" where
  "deleteSignup signupId' = DELETE signupId'"

text \<open>
  The record store itself is outside the program. Its two operations are taken as
  Airtable documents them: \<open>PATCH\<close> overwrites the fields named in the body of the
  record with the given id and leaves its other fields and all other records alone;
  \<open>DELETE\<close> removes the record; both fail when no record has the id.
\<close>

definition storeApply :: "request \<Rightarrow> AirtableSignup list \<Rightarrow> error + AirtableSignup list" where
  "storeApply req store =
     (case req of
        PATCH i body \<Rightarrow>
          if i \<in> recId ` set store
          then Inr (map (\<lambda>r. if recId r = i then r\<lparr>recFields := recFields r ++ map_of body\<rparr> else r)
                     store)
          else Inl UpstreamFailure
      | DELETE i \<Rightarrow>
          if i \<in> recId ` set store
          then Inr (filter (\<lambda>r. recId r \<noteq> i) store)
          else Inl UpstreamFailure)"

section \<open>The proposal cache\<close>

record ProposedRoster =
  rosterIds :: "string list"
  waitlistIds :: "string list"
  timestamp :: int

text \<open>\<^verbatim>\<open>const proposedRosters = new Map<string, ProposedRoster>()\<close>, keyed by trip id.\<close>

type_synonym proposalCache = "string \<rightharpoonup> ProposedRoster"

definition PROPOSAL_TTL :: int where
  "PROPOSAL_TTL = 10 * 60 * 1000"

text \<open>
  The sweep, run every minute by \<^verbatim>\<open>setInterval\<close>; \<open>now\<close> is \<^verbatim>\<open>Date.now()\<close> in
  milliseconds.
\<close>

definition cleanupExpiredProposals :: "int \<Rightarrow> proposalCache \<Rightarrow> proposalCache" where
  "cleanupExpiredProposals now proposedRosters =
     (\<lambda>tripId. case proposedRosters tripId of
                  None \<Rightarrow> None
                | Some proposal \<Rightarrow>
                    if now - timestamp proposal > PROPOSAL_TTL then None else Some proposal)"

section \<open>The randomized allocator\<close>

text \<open>
  \<^verbatim>\<open>POST /api/airtable/randomize\<close>. The two shuffles
  \<^verbatim>\<open>[...pool].sort(() => Math.random() - 0.5)\<close> are parameters of the model: any
  function from a list to a list.
\<close>

text \<open>
  \<^verbatim>\<open>Array.prototype.slice\<close> on integer arguments: a negative index counts from the end
  of the array, and every index is clamped to the range from 0 to the length.
  \<open>jsSlice xs start final\<close> is \<^verbatim>\<open>xs.slice(start, final)\<close> and \<open>jsSliceFrom xs start\<close>
  is \<^verbatim>\<open>xs.slice(start)\<close>.
\<close>

definition sliceIndex :: "int \<Rightarrow> nat \<Rightarrow> nat" where
  "sliceIndex i len = (if i < 0 then nat (max (int len + i) 0) else min (nat i) len)"

definition jsSlice :: "'a list \<Rightarrow> int \<Rightarrow> int \<Rightarrow> 'a list" where
  "jsSlice xs start final =
     (let len = length xs;
          k = sliceIndex start len;
          fin = sliceIndex final len
      in take (fin - k) (drop k xs))"

definition jsSliceFrom :: "'a list \<Rightarrow> int \<Rightarrow> 'a list" where
  "jsSliceFrom xs start = drop (sliceIndex start (length xs)) xs"

record Allocation =
  selectedAsDrivers :: "Signup list"
  selectedAsNonDrivers :: "Signup list"
  driversUsedAsNonDrivers :: "Signup list"
  rejectedDrivers :: "Signup list"
  rejectedNonDrivers :: "Signup list"
  proposedRoster :: "Signup list"
  proposedWaitlist :: "Signup list"

text \<open>
  The selection proper, from \<^verbatim>\<open>// Select drivers for driver slots\<close> to the proposed
  roster and waitlist, on the two shuffled pools.
\<close>

definition allocate :: "int \<Rightarrow> int \<Rightarrow> Signup list \<Rightarrow> Signup list \<Rightarrow> Allocation" where
  "allocate driverSlotsNeeded nonDriverSlotsNeeded shuffledDrivers shuffledNonDrivers =
     (let selAsDrivers = jsSlice shuffledDrivers 0 driverSlotsNeeded;
          remainingDriverPool = jsSliceFrom shuffledDrivers driverSlotsNeeded;
          selAsNonDrivers0 = jsSlice shuffledNonDrivers 0 nonDriverSlotsNeeded;
          remainingNonDriverPool = jsSliceFrom shuffledNonDrivers nonDriverSlotsNeeded;
          nonDriverSlotsFilled = int (length selAsNonDrivers0);
          backfill = (nonDriverSlotsFilled < nonDriverSlotsNeeded
                        \<and> length remainingDriverPool > 0);
          neededBackfill = nonDriverSlotsNeeded - nonDriverSlotsFilled;
          usedAsNonDrivers = (if backfill then jsSlice remainingDriverPool 0 neededBackfill
                              else []);
          selAsNonDrivers = (if backfill then selAsNonDrivers0 @ usedAsNonDrivers
                             else selAsNonDrivers0);
          finalRemainingDriverPool = (if backfill then jsSliceFrom remainingDriverPool neededBackfill
                                      else remainingDriverPool);
          rejDrivers = finalRemainingDriverPool;
          rejNonDrivers = remainingNonDriverPool
      in \<lparr> selectedAsDrivers = selAsDrivers,
           selectedAsNonDrivers = selAsNonDrivers,
           driversUsedAsNonDrivers = usedAsNonDrivers,
           rejectedDrivers = rejDrivers,
           rejectedNonDrivers = rejNonDrivers,
           proposedRoster = selAsDrivers @ selAsNonDrivers,
           proposedWaitlist = rejDrivers @ rejNonDrivers \<rparr>)"

text \<open>
  The handler: the two checks, the two pools, the shuffles, the selection, and the
  proposal stored under the trip id (overwriting any earlier one).
\<close>

definition randomize ::
  "(Signup list \<Rightarrow> Signup list) \<Rightarrow> (Signup list \<Rightarrow> Signup list) \<Rightarrow> int \<Rightarrow> proposalCache
     \<Rightarrow> string \<Rightarrow> Trip \<Rightarrow> Signup list \<Rightarrow> error + (proposalCache \<times> Allocation)" where
  "randomize shuffleDrivers shuffleNonDrivers now proposedRosters tripId trip allSignups =
     (let driverSlotsNeeded = orZero (AdditionalDriversRequired trip);
          nonDriverSlotsNeeded = orZero (NonDriversCapacity trip)
      in if driverSlotsNeeded = 0 \<and> nonDriverSlotsNeeded = 0 then Inl InvalidCapacity
         else if length allSignups = 0 then Inl EmptyPool
         else
           let driverEligible = filter (\<lambda>s. IsDriver s = True) allSignups;
               nonDriverEligible = filter (\<lambda>s. IsDriver s \<noteq> True) allSignups;
               shuffledDrivers = shuffleDrivers driverEligible;
               shuffledNonDrivers = shuffleNonDrivers nonDriverEligible;
               a = allocate driverSlotsNeeded nonDriverSlotsNeeded shuffledDrivers shuffledNonDrivers
           in Inr (proposedRosters(tripId \<mapsto>
                       \<lparr> rosterIds = map signupId (proposedRoster a),
                         waitlistIds = map signupId (proposedWaitlist a),
                         timestamp = now \<rparr>),
                   a))"

section \<open>The approval\<close>

text \<open>
  \<^verbatim>\<open>POST /api/airtable/approve-randomization\<close>. The handlers are modelled on what they
  fetch: the trip and the signups are arguments, and the answer is the one given when the
  store accepts every request (an exception of \<^verbatim>\<open>fetch\<close> ends a handler with HTTP 500
  and is not part of the model).

  What the approval does besides answering, in program order: the deletion from the
  cache, the fetch of the signups, and the writes handed to \<^verbatim>\<open>Promise.all\<close>. The
  successful answer carries the two lengths of the message,
  \<^verbatim>\<open>rosterIds.length\<close> and \<^verbatim>\<open>waitlistIds.length\<close>.
\<close>

datatype effect =
    CacheDelete string
  | FetchTripSignups string
  | Write request

record ApproveOutcome =
  cacheAfter :: proposalCache
  effects :: "effect list"
  response :: "error + (nat \<times> nat)"

text \<open>\<^verbatim>\<open>new Map(signups.map(s => [s.id, s]))\<close>: for a repeated id the later entry wins.\<close>

definition signupMapOf :: "Signup list \<Rightarrow> (string \<rightharpoonup> Signup)" where
  "signupMapOf fetched = map_of (rev (map (\<lambda>s. (signupId s, s)) fetched))"

text \<open>The \<open>forEach\<close> over \<open>rosterIds\<close> that pushes onto \<open>rosterUpdates\<close>.\<close>

fun rosterUpdatesOf :: "(string \<rightharpoonup> Signup) \<Rightarrow> string list \<Rightarrow> (string \<times> string) list" where
  "rosterUpdatesOf signupMap [] = []"
| "rosterUpdatesOf signupMap (i # ids) =
     (case signupMap i of
        None \<Rightarrow> rosterUpdatesOf signupMap ids
      | Some signup \<Rightarrow> (i, selectedStatus (IsDriver signup)) # rosterUpdatesOf signupMap ids)"

text \<open>The \<open>forEach\<close> over \<open>waitlistIds\<close> that fills \<open>waitlistDrivers\<close> and \<open>waitlistNonDrivers\<close>.\<close>

fun waitlistSplit :: "(string \<rightharpoonup> Signup) \<Rightarrow> string list \<Rightarrow> string list \<times> string list" where
  "waitlistSplit signupMap [] = ([], [])"
| "waitlistSplit signupMap (i # ids) =
     (let (waitlistDrivers, waitlistNonDrivers) = waitlistSplit signupMap ids
      in case signupMap i of
           None \<Rightarrow> (waitlistDrivers, waitlistNonDrivers)
         | Some signup \<Rightarrow>
             if IsDriver signup then (i # waitlistDrivers, waitlistNonDrivers)
             else (waitlistDrivers, i # waitlistNonDrivers))"

text \<open>\<^verbatim>\<open>ids.forEach((id, index) => waitlistUpdates.push({ id, status }))\<close>.\<close>

definition numbered :: "(nat \<Rightarrow> string) \<Rightarrow> string list \<Rightarrow> (string \<times> string) list" where
  "numbered statusOf ids = map (\<lambda>(index, i). (i, statusOf index)) (enumerate 0 ids)"

text \<open>
  The validation of one list of ids of the request against the stored one:
  \<^verbatim>\<open>ids.length === stored.length && ids.every(id => storedSet.has(id))\<close>, with
  \<^verbatim>\<open>storedSet = new Set(stored)\<close>. The handler evaluates it for \<open>rosterIds\<close>
  (\<open>rosterMatches\<close>) and for \<open>waitlistIds\<close> (\<open>waitlistMatches\<close>). It also builds
  \<^verbatim>\<open>new Set(rosterIds)\<close> and \<^verbatim>\<open>new Set(waitlistIds)\<close> and never reads them.
\<close>

definition idsMatch :: "string list \<Rightarrow> string list \<Rightarrow> bool" where
  "idsMatch ids stored =
     (let storedSet = set stored
      in length ids = length stored \<and> list_all (\<lambda>i. i \<in> storedSet) ids)"

definition approveRandomization ::
  "proposalCache \<Rightarrow> string \<Rightarrow> string list \<Rightarrow> string list \<Rightarrow> Signup list \<Rightarrow> ApproveOutcome" where
  "approveRandomization proposedRosters tripId reqRosterIds reqWaitlistIds fetched =
     (case proposedRosters tripId of
        None \<Rightarrow>
          \<lparr> cacheAfter = proposedRosters, effects = [], response = Inl NoPendingProposal \<rparr>
      | Some storedProposal \<Rightarrow>
          let rosterMatches = idsMatch reqRosterIds (rosterIds storedProposal);
              waitlistMatches = idsMatch reqWaitlistIds (waitlistIds storedProposal)
          in if \<not> rosterMatches \<or> \<not> waitlistMatches
             then \<lparr> cacheAfter = proposedRosters, effects = [], response = Inl ProposalMismatch \<rparr>
             else
               let cleared = proposedRosters(tripId := None);
                   signupMap = signupMapOf fetched;
                   rosterUpdates = rosterUpdatesOf signupMap reqRosterIds;
                   (waitlistDrivers, waitlistNonDrivers) = waitlistSplit signupMap reqWaitlistIds;
                   waitlistUpdates = numbered waitlistDriverStatus waitlistDrivers
                                       @ numbered waitlistNonDriverStatus waitlistNonDrivers;
                   updateTasks = map (\<lambda>(i, status). updateSignup i (Some status)) rosterUpdates
                                   @ map (\<lambda>(i, status). updateSignup i (Some status)) waitlistUpdates
               in \<lparr> cacheAfter = cleared,
                    effects = CacheDelete tripId # FetchTripSignups tripId # map Write updateTasks,
                    response = Inr (length reqRosterIds, length reqWaitlistIds) \<rparr>)"



section \<open>Promotion from the waitlist and re-admission\<close>

text \<open>
  \<^verbatim>\<open>POST /api/airtable/addFromWaitlist\<close>. On success the handler answers with the person
  added; the model returns that person and the single write.
\<close>

definition driverSpotsAvailable :: "Trip \<Rightarrow> Signup list \<Rightarrow> int" where
  "driverSpotsAvailable trip fetched =
     (let driverSlots = orZero (AdditionalDriversRequired trip);
          currentRoster = filter rosterFilter fetched;
          currentDrivers = length (filter IsDriver currentRoster)
      in driverSlots - int currentDrivers)"

definition nonDriverSpotsAvailable :: "Trip \<Rightarrow> Signup list \<Rightarrow> int" where
  "nonDriverSpotsAvailable trip fetched =
     (let maxParticipants = orZero (CapacityIncludingLeads trip);
          driverSlots = orZero (AdditionalDriversRequired trip);
          currentRoster = filter rosterFilter fetched;
          currentDrivers = length (filter IsDriver currentRoster);
          currentNonDrivers = int (length currentRoster) - int currentDrivers
      in maxParticipants - driverSlots - currentNonDrivers)"

definition promote :: "Signup \<Rightarrow> error + (Signup \<times> request)" where
  "promote nextPerson =
     (let isDriver = IsDriver nextPerson;
          newStatus = selectedStatus isDriver
      in Inr (nextPerson, updateSignup (signupId nextPerson) (Some newStatus)))"

definition addFromWaitlist :: "Trip \<Rightarrow> Signup list \<Rightarrow> error + (Signup \<times> request)" where
  "addFromWaitlist trip fetched =
     (let maxParticipants = orZero (CapacityIncludingLeads trip);
          currentRoster = filter rosterFilter fetched;
          currentTotal = length currentRoster
      in if int currentTotal \<ge> maxParticipants then Inl RosterFull
         else
           let currentWaitlist = filter waitlistFilter fetched
           in if length currentWaitlist = 0 then Inl WaitlistEmpty
              else
                let waitlistDrivers = filter IsDriver currentWaitlist;
                    waitlistNonDrivers = filter (\<lambda>s. \<not> IsDriver s) currentWaitlist
                in if driverSpotsAvailable trip fetched > 0 \<and> nonDriverSpotsAvailable trip fetched > 0
                   then (case waitlistDrivers of
                           d # _ \<Rightarrow> promote d
                         | [] \<Rightarrow> (case waitlistNonDrivers of
                                    n # _ \<Rightarrow> promote n
                                  | [] \<Rightarrow> Inl WaitlistEmpty))
                   else if driverSpotsAvailable trip fetched > 0
                   then (case waitlistDrivers of
                           [] \<Rightarrow> Inl NoDriversOnWaitlist
                         | d # _ \<Rightarrow> promote d)
                   else if nonDriverSpotsAvailable trip fetched > 0
                   then (case waitlistNonDrivers of
                           [] \<Rightarrow> Inl NoNonDriversOnWaitlist
                         | n # _ \<Rightarrow> promote n)
                   else Inl NoSuitableParticipant)"

text \<open>\<^verbatim>\<open>POST /api/airtable/reAddParticipant\<close>.\<close>

definition reAddParticipant :: "Trip \<Rightarrow> Signup list \<Rightarrow> string \<Rightarrow> error + request" where
  "reAddParticipant trip fetched participantId =
     (let maxParticipants = orZero (CapacityIncludingLeads trip);
          driverSlots = orZero (AdditionalDriversRequired trip)
      in case find (\<lambda>s. signupId s = participantId) fetched of
           None \<Rightarrow> Inl ParticipantNotFound
         | Some droppedParticipant \<Rightarrow>
             let currentRoster = filter rosterFilter fetched;
                 currentTotal = length currentRoster
             in if int currentTotal \<ge> maxParticipants then Inl RosterFull
                else
                  let isDriver = IsDriver droppedParticipant;
                      currentDrivers = length (filter IsDriver currentRoster);
                      currentNonDrivers = int (length currentRoster) - int currentDrivers;
                      newStatus = selectedStatus isDriver
                  in if isDriver
                     then (if driverSlots - int currentDrivers \<le> 0 then Inl NoDriverSpots
                           else Inr (updateSignup participantId (Some newStatus)))
                     else (let nonDriverCapacity = maxParticipants - driverSlots
                           in if nonDriverCapacity - currentNonDrivers \<le> 0 then Inl NoNonDriverSpots
                              else Inr (updateSignup participantId (Some newStatus))))"

section \<open>Dropping a participant\<close>

text \<open>
  \<^verbatim>\<open>POST /api/airtable/dropParticipant\<close>: the requests that the handler sends to the
  store, for the formatted date of today. It reads neither the trip nor the signups.
\<close>

definition dropParticipant :: "string \<Rightarrow> string \<Rightarrow> request list" where
  "dropParticipant todayDate participantId =
     (let newStatus = droppedStatus todayDate
      in [updateSignup participantId (Some newStatus)])"

text \<open>Sending requests one after the other, stopping at the first failure.\<close>

fun storeApplyAll :: "request list \<Rightarrow> AirtableSignup list \<Rightarrow> error + AirtableSignup list" where
  "storeApplyAll [] store = Inr store"
| "storeApplyAll (q # qs) store =
     (case storeApply q store of Inl e \<Rightarrow> Inl e | Inr store' \<Rightarrow> storeApplyAll qs store')"

text \<open>Reading a trace: the writes among the effects, the record a request addresses, the
  status that a request writes.\<close>

fun writesOf :: "effect list \<Rightarrow> request list" where
  "writesOf [] = []"
| "writesOf (Write q # es) = q # writesOf es"
| "writesOf (e # es) = writesOf es"

fun requestId :: "request \<Rightarrow> string" where
  "requestId (PATCH i body) = i"
| "requestId (DELETE i) = i"

fun requestStatus :: "request \<Rightarrow> fieldValue option" where
  "requestStatus (PATCH i body) = map_of body ''Status''"
| "requestStatus (DELETE i) = None"

section \<open>Sample data\<close>

text \<open>Shorthand for the concrete records of the examples below.\<close>

abbreviation mkSignup :: "string \<Rightarrow> string \<Rightarrow> bool \<Rightarrow> string \<Rightarrow> Signup" where
  "mkSignup i n d st \<equiv>
     \<lparr> signupId = i, ParticipantName = n, TripID = [''trip1''], IsDriver = d, Status = st,
       Email = None, Phone = None \<rparr>"

abbreviation mkProposal :: "string list \<Rightarrow> string list \<Rightarrow> int \<Rightarrow> ProposedRoster" where
  "mkProposal r w ts \<equiv> \<lparr> rosterIds = r, waitlistIds = w, timestamp = ts \<rparr>"

abbreviation mkTrip :: "int \<Rightarrow> int \<Rightarrow> int \<Rightarrow> Trip" where
  "mkTrip capacity drivers nonDrivers \<equiv>
     \<lparr> CapacityIncludingLeads = Some capacity, AdditionalDriversRequired = Some drivers,
       NonDriversCapacity = Some nonDrivers \<rparr>"

section \<open>Auxiliary facts\<close>

lemma digitChar_digit: "d < 10 \<Longrightarrow> digitChar d \<in> set ''0123456789''"
proof -
  assume "d < 10"
  then have "d \<in> {0, 1, 2, 3, 4, 5, 6, 7, 8, 9}" by auto
  then show ?thesis by (auto simp add: digitChar_def)
qed

lemma showNat_digits: "set (showNat n) \<subseteq> set ''0123456789''"
proof (induction n rule: showNat.induct)
  case (1 n)
  show ?case
  proof (cases "n < 10")
    case True
    then show ?thesis
      using digitChar_digit [of n] by (simp add: showNat.simps [of n])
  next
    case False
    then show ?thesis
      using 1 digitChar_digit [of "n mod 10"] by (simp add: showNat.simps [of n])
  qed
qed

lemma startsWith_absent: "c \<in> set sub \<Longrightarrow> c \<notin> set s \<Longrightarrow> \<not> startsWith s sub"
proof (induction s sub rule: startsWith.induct)
  case (1 s)
  then show ?case by simp
next
  case (2 b bs)
  then show ?case by simp
next
  case (3 a as b bs)
  then show ?case by (cases "a = b") auto
qed

lemma str_includes_absent: "c \<in> set sub \<Longrightarrow> c \<notin> set s \<Longrightarrow> \<not> str_includes s sub"
  by (induction s) (auto simp: startsWith_absent)

lemma charToLower_fixed: "c \<in> set ''0123456789/'' \<Longrightarrow> charToLower c = c"
proof -
  assume "c \<in> set ''0123456789/''"
  then have "c = CHR ''0'' \<or> c = CHR ''1'' \<or> c = CHR ''2'' \<or> c = CHR ''3'' \<or> c = CHR ''4''
      \<or> c = CHR ''5'' \<or> c = CHR ''6'' \<or> c = CHR ''7'' \<or> c = CHR ''8'' \<or> c = CHR ''9''
      \<or> c = CHR ''/''"
    by simp
  then show ?thesis
    by (elim disjE) (simp_all add: charToLower_def)
qed

lemma toLowerCase_fixed:
  assumes "set s \<subseteq> set ''0123456789/''"
  shows "toLowerCase s = s"
  unfolding toLowerCase_def
proof (rule map_idI)
  fix c
  assume "c \<in> set s"
  with assms have "c \<in> set ''0123456789/''" by (rule_tac subsetD)
  then show "charToLower c = c" by (rule charToLower_fixed)
qed

lemma toLowerCase_append_fixed:
  assumes "set s \<subseteq> set ''0123456789/''"
  shows "toLowerCase (pre @ s) = toLowerCase pre @ s"
proof -
  have "toLowerCase (pre @ s) = toLowerCase pre @ toLowerCase s"
    by (simp only: toLowerCase_def map_append)
  then show ?thesis by (simp only: toLowerCase_fixed [OF assms])
qed

lemma approve_absent_iff:
  "response (approveRandomization c t r w f) = Inl NoPendingProposal \<longleftrightarrow> c t = None"
  by (simp add: approveRandomization_def Let_def split: option.split prod.split)

section \<open>Expiry of a proposal\<close>

text \<open>
  Claim C1, as amended. The approval fails with \<open>NoPendingProposal\<close> exactly when the
  cache holds no entry for the trip; it does not read the timestamp. An entry older than
  the ten minutes is removed by the sweep \<open>cleanupExpiredProposals\<close>, and an approval
  that comes after the sweep fails with \<open>NoPendingProposal\<close>.
\<close>

theorem approve_expiry_by_sweep_only:
  "(response (approveRandomization c t r w f) = Inl NoPendingProposal \<longleftrightarrow> c t = None)
   \<and> (\<forall>p. c t = Some p \<and> now - timestamp p > PROPOSAL_TTL \<longrightarrow>
          response (approveRandomization (cleanupExpiredProposals now c) t r w f)
            = Inl NoPendingProposal)"
  by (simp add: approve_absent_iff cleanupExpiredProposals_def)

theorem approve_expiry_by_sweep_only_witness:
  "[''trip1'' \<mapsto> \<lparr> rosterIds = [''a''], waitlistIds = [], timestamp = 0 \<rparr>] ''trip1''
      = Some \<lparr> rosterIds = [''a''], waitlistIds = [], timestamp = 0 \<rparr>
   \<and> 600001 - timestamp \<lparr> rosterIds = [''a''], waitlistIds = [], timestamp = 0 \<rparr> > PROPOSAL_TTL
   \<and> response (approveRandomization
          (cleanupExpiredProposals 600001
             [''trip1'' \<mapsto> \<lparr> rosterIds = [''a''], waitlistIds = [], timestamp = 0 \<rparr>])
          ''trip1'' [''a''] [] []) = Inl NoPendingProposal"
  using approve_expiry_by_sweep_only
    [of "[''trip1'' \<mapsto> \<lparr> rosterIds = [''a''], waitlistIds = [], timestamp = 0 \<rparr>]"
        "''trip1''" "[''a'']" "[]" "[]" 600001]
  by (simp add: PROPOSAL_TTL_def)

text \<open>
  Claim C1 as stated fails: a proposal stored at time 0 is ten minutes and one
  millisecond old at time 600001; the sweep has not run, the entry is still in the
  cache, and the approval of the stored ids succeeds.
\<close>

theorem approve_stale_entry_counterexample:
  "600001 - timestamp \<lparr> rosterIds = [''a''], waitlistIds = [], timestamp = 0 \<rparr> > PROPOSAL_TTL
   \<and> response (approveRandomization
          [''trip1'' \<mapsto> \<lparr> rosterIds = [''a''], waitlistIds = [], timestamp = 0 \<rparr>]
          ''trip1'' [''a''] [] []) = Inr (1, 0)"
  by (simp add: PROPOSAL_TTL_def approveRandomization_def idsMatch_def Let_def)

section \<open>Validation and commit of an approval\<close>


lemma approve_matched:
  assumes "c t = Some p" "idsMatch r (rosterIds p)" "idsMatch w (waitlistIds p)"
  shows "cacheAfter (approveRandomization c t r w f) = c(t := None)"
    and "response (approveRandomization c t r w f) = Inr (length r, length w)"
    and "effects (approveRandomization c t r w f)
           = CacheDelete t # FetchTripSignups t
               # map Write (map (\<lambda>(i, status). updateSignup i (Some status))
                   (rosterUpdatesOf (signupMapOf f) r
                    @ numbered waitlistDriverStatus (fst (waitlistSplit (signupMapOf f) w))
                    @ numbered waitlistNonDriverStatus (snd (waitlistSplit (signupMapOf f) w))))"
  using assms by (simp_all add: approveRandomization_def Let_def split: prod.split)

lemma writesOf_Write: "writesOf (map Write qs) = qs"
  by (induction qs) auto

lemma signupMapOf_None: "signupMapOf f i = None \<longleftrightarrow> i \<notin> signupId ` set f"
  by (simp add: signupMapOf_def map_of_eq_None_iff image_image)

lemma signupMapOf_Some: "signupMapOf f i = Some s \<Longrightarrow> i \<in> signupId ` set f"
  using signupMapOf_None [of f i] by (cases "i \<in> signupId ` set f") simp_all

lemma rosterUpdatesOf_ids:
  "map fst (rosterUpdatesOf (signupMapOf f) r) = filter (\<lambda>i. i \<in> signupId ` set f) r"
proof (induction r)
  case Nil
  then show ?case by simp
next
  case (Cons i r)
  show ?case
  proof (cases "signupMapOf f i")
    case None
    then show ?thesis using Cons signupMapOf_None [of f i] by simp
  next
    case (Some s)
    then show ?thesis using Cons signupMapOf_Some [OF Some] by simp
  qed
qed

lemma rosterUpdatesOf_statuses:
  "map snd (rosterUpdatesOf (signupMapOf f) r)
     = map (\<lambda>i. selectedStatus (IsDriver (the (signupMapOf f i))))
         (filter (\<lambda>i. i \<in> signupId ` set f) r)"
proof (induction r)
  case Nil
  then show ?case by simp
next
  case (Cons i r)
  show ?case
  proof (cases "signupMapOf f i")
    case None
    then show ?thesis using Cons signupMapOf_None [of f i] by simp
  next
    case (Some s)
    then show ?thesis using Cons signupMapOf_Some [OF Some] by simp
  qed
qed

lemma waitlistSplit_filter:
  "waitlistSplit m w
     = (filter (\<lambda>i. case m i of None \<Rightarrow> False | Some s \<Rightarrow> IsDriver s) w,
        filter (\<lambda>i. case m i of None \<Rightarrow> False | Some s \<Rightarrow> \<not> IsDriver s) w)"
  by (induction w) (auto split: option.split)

lemma numbered_ids: "map fst (numbered g ids) = ids"
  by (simp add: numbered_def enumerate_eq_zip case_prod_unfold comp_def)

lemma numbered_statuses: "map snd (numbered g ids) = map g [0..<length ids]"
proof -
  have "map snd (numbered g ids) = map (\<lambda>x. g (fst x)) (zip [0..<length ids] ids)"
    by (simp add: numbered_def enumerate_eq_zip case_prod_unfold comp_def)
  also have "\<dots> = map g (map fst (zip [0..<length ids] ids))"
    by (simp only: map_map comp_def)
  also have "\<dots> = map g [0..<length ids]"
    by simp
  finally show ?thesis .
qed

lemma positions_from_one: "map (\<lambda>index. g (index + 1)) [0..<k] = map g [1..<Suc k]"
proof -
  have "map g [Suc 0..<Suc k] = map g (map Suc [0..<k])" by (simp only: map_Suc_upt)
  then show ?thesis by (simp add: comp_def)
qed

lemma updateSignup_selected:
  "updateSignup i (Some (selectedStatus b)) = PATCH i [(''Status'', StringValue (selectedStatus b))]"
  by (simp add: updateSignup_def selectedStatus_def)

lemma updateSignup_waitlistDriver:
  "updateSignup i (Some (waitlistDriverStatus k))
     = PATCH i [(''Status'', StringValue (waitlistDriverStatus k))]"
  by (simp add: updateSignup_def waitlistDriverStatus_def)

lemma updateSignup_waitlistNonDriver:
  "updateSignup i (Some (waitlistNonDriverStatus k))
     = PATCH i [(''Status'', StringValue (waitlistNonDriverStatus k))]"
  by (simp add: updateSignup_def waitlistNonDriverStatus_def)

lemma requestId_updateSignup: "requestId (updateSignup i st) = i"
  by (simp add: updateSignup_def)

lemma approve_mismatch_keeps_cache:
  "response (approveRandomization c t r w f) = Inl ProposalMismatch \<Longrightarrow>
     cacheAfter (approveRandomization c t r w f) = c \<and> effects (approveRandomization c t r w f) = []"
  by (simp add: approveRandomization_def Let_def split: option.splits prod.splits if_splits)

lemma idsMatch_distinct:
  assumes "distinct ids"
  shows "idsMatch ids stored \<longleftrightarrow> (length ids = length stored \<and> set ids = set stored)"
proof
  assume m: "idsMatch ids stored"
  then have l: "length ids = length stored" and s: "set ids \<subseteq> set stored"
    by (auto simp: idsMatch_def list_all_iff)
  have "card (set stored) \<le> length stored" by (rule card_length)
  also have "\<dots> = card (set ids)" using assms l by (simp add: distinct_card)
  finally have "set ids = set stored" using s by (simp add: card_seteq)
  with l show "length ids = length stored \<and> set ids = set stored" by simp
next
  assume "length ids = length stored \<and> set ids = set stored"
  then show "idsMatch ids stored" by (auto simp: idsMatch_def list_all_iff)
qed

text \<open>
  Claim C2, evaluated where it fails. The stored proposal has the roster \<open>a, b\<close>; the
  request names \<open>a\<close> twice. The two lists have the same length and every id of the
  request is a stored one, so the validation passes although the sets differ: the proposal
  is consumed and \<open>a\<close> is written twice, \<open>b\<close> not at all.
\<close>

theorem approve_duplicate_ids_accepted:
  "set [''a'', ''a''] \<noteq> set [''a'', ''b'']
   \<and> approveRandomization
        [''trip1'' \<mapsto> \<lparr> rosterIds = [''a'', ''b''], waitlistIds = [], timestamp = 0 \<rparr>]
        ''trip1'' [''a'', ''a''] []
        [\<lparr> signupId = ''a'', ParticipantName = ''Ann'', TripID = [''trip1''],
             IsDriver = True, Status = ''UNKNOWN'', Email = None, Phone = None \<rparr>,
         \<lparr> signupId = ''b'', ParticipantName = ''Bob'', TripID = [''trip1''],
             IsDriver = False, Status = ''UNKNOWN'', Email = None, Phone = None \<rparr>]
     = \<lparr> cacheAfter = Map.empty,
         effects = [CacheDelete ''trip1'', FetchTripSignups ''trip1'',
                    Write (PATCH ''a'' [(''Status'', StringValue ''Selected (driver)'')]),
                    Write (PATCH ''a'' [(''Status'', StringValue ''Selected (driver)'')])],
         response = Inr (2, 0) \<rparr>"
  by (simp add: approveRandomization_def idsMatch_def Let_def signupMapOf_def selectedStatus_def
        updateSignup_def numbered_def)

theorem approve_duplicate_ids_accepted_witness:
  "response (approveRandomization
        [''trip1'' \<mapsto> \<lparr> rosterIds = [''a'', ''b''], waitlistIds = [], timestamp = 0 \<rparr>]
        ''trip1'' [''a'', ''a''] []
        [\<lparr> signupId = ''a'', ParticipantName = ''Ann'', TripID = [''trip1''],
             IsDriver = True, Status = ''UNKNOWN'', Email = None, Phone = None \<rparr>,
         \<lparr> signupId = ''b'', ParticipantName = ''Bob'', TripID = [''trip1''],
             IsDriver = False, Status = ''UNKNOWN'', Email = None, Phone = None \<rparr>])
     = Inr (2, 0)
   \<and> cacheAfter (approveRandomization
        [''trip1'' \<mapsto> \<lparr> rosterIds = [''a'', ''b''], waitlistIds = [], timestamp = 0 \<rparr>]
        ''trip1'' [''a'', ''a''] []
        [\<lparr> signupId = ''a'', ParticipantName = ''Ann'', TripID = [''trip1''],
             IsDriver = True, Status = ''UNKNOWN'', Email = None, Phone = None \<rparr>,
         \<lparr> signupId = ''b'', ParticipantName = ''Bob'', TripID = [''trip1''],
             IsDriver = False, Status = ''UNKNOWN'', Email = None, Phone = None \<rparr>]) ''trip1''
     = None"
  using approve_duplicate_ids_accepted by simp



text \<open>
  Claim C10. In a validated approval an id that is not the id of a fetched signup gets no
  write: the writes address exactly the ids that resolve, roster first, then the waitlisted
  drivers, then the waitlisted non-drivers, each in the order of the request. The positions
  written are 1 to k over the k ids of each sub-queue that resolve, and the response is the
  success response.
\<close>

theorem approve_skips_unresolved:
  assumes "c t = Some p" and "idsMatch r (rosterIds p)" and "idsMatch w (waitlistIds p)"
  shows "response (approveRandomization c t r w f) = Inr (length r, length w)
    \<and> (\<forall>q \<in> set (writesOf (effects (approveRandomization c t r w f))).
          requestId q \<in> signupId ` set f)
    \<and> map requestId (writesOf (effects (approveRandomization c t r w f)))
        = filter (\<lambda>i. i \<in> signupId ` set f) r
          @ filter (\<lambda>i. case signupMapOf f i of None \<Rightarrow> False | Some s \<Rightarrow> IsDriver s) w
          @ filter (\<lambda>i. case signupMapOf f i of None \<Rightarrow> False | Some s \<Rightarrow> \<not> IsDriver s) w
    \<and> map requestStatus (writesOf (effects (approveRandomization c t r w f)))
        = map (\<lambda>i. Some (StringValue (selectedStatus (IsDriver (the (signupMapOf f i))))))
            (filter (\<lambda>i. i \<in> signupId ` set f) r)
          @ map (\<lambda>n. Some (StringValue (''Waitlist (driver) - '' @ showNat n)))
              [1..<Suc (length (filter
                 (\<lambda>i. case signupMapOf f i of None \<Rightarrow> False | Some s \<Rightarrow> IsDriver s) w))]
          @ map (\<lambda>n. Some (StringValue (''Waitlist (nondriver) - '' @ showNat n)))
              [1..<Suc (length (filter
                 (\<lambda>i. case signupMapOf f i of None \<Rightarrow> False | Some s \<Rightarrow> \<not> IsDriver s) w))]"
proof -
  let ?o = "approveRandomization c t r w f"
  let ?m = "signupMapOf f"
  let ?D = "filter (\<lambda>i. case ?m i of None \<Rightarrow> False | Some s \<Rightarrow> IsDriver s) w"
  let ?N = "filter (\<lambda>i. case ?m i of None \<Rightarrow> False | Some s \<Rightarrow> \<not> IsDriver s) w"
  let ?R = "filter (\<lambda>i. i \<in> signupId ` set f) r"
  let ?up = "\<lambda>(i, status). updateSignup i (Some status)"
  have ws: "writesOf (effects ?o)
      = map ?up (rosterUpdatesOf ?m r) @ map ?up (numbered waitlistDriverStatus ?D)
        @ map ?up (numbered waitlistNonDriverStatus ?N)"
  proof -
    have "writesOf (effects ?o)
        = map ?up (rosterUpdatesOf ?m r
                   @ numbered waitlistDriverStatus (fst (waitlistSplit ?m w))
                   @ numbered waitlistNonDriverStatus (snd (waitlistSplit ?m w)))"
      by (simp only: approve_matched(3) [of c t p r w f, OF assms] writesOf.simps writesOf_Write)
    then show ?thesis
      by (simp only: waitlistSplit_filter fst_conv snd_conv map_append)
  qed
  have idr: "map requestId (map ?up (rosterUpdatesOf ?m r)) = ?R"
    using rosterUpdatesOf_ids [of f r]
    by (simp add: comp_def case_prod_unfold requestId_updateSignup)
  have idn: "\<And>g ids. map requestId (map ?up (numbered g ids)) = ids"
    using numbered_ids by (simp add: comp_def case_prod_unfold requestId_updateSignup)
  have ids: "map requestId (writesOf (effects ?o)) = ?R @ ?D @ ?N"
    by (simp only: ws map_append idr idn)
  have sub: "\<forall>q \<in> set (writesOf (effects ?o)). requestId q \<in> signupId ` set f"
  proof
    fix q assume "q \<in> set (writesOf (effects ?o))"
    then have "requestId q \<in> set (?R @ ?D @ ?N)"
      unfolding ids [symmetric] by simp
    then show "requestId q \<in> signupId ` set f"
      by (auto dest: signupMapOf_Some split: option.splits)
  qed
  have str: "map requestStatus (map ?up (rosterUpdatesOf ?m r))
      = map (\<lambda>i. Some (StringValue (selectedStatus (IsDriver (the (?m i)))))) ?R"
  proof -
    have "map requestStatus (map ?up (rosterUpdatesOf ?m r))
        = map (\<lambda>s. Some (StringValue s)) (map snd (rosterUpdatesOf ?m r))"
      by (induction r) (auto simp: updateSignup_selected split: option.split)
    then show ?thesis
      by (simp add: rosterUpdatesOf_statuses comp_def)
  qed
  have std: "map requestStatus (map ?up (numbered waitlistDriverStatus ?D))
      = map (\<lambda>n. Some (StringValue (''Waitlist (driver) - '' @ showNat n))) [1..<Suc (length ?D)]"
  proof -
    have "map requestStatus (map ?up (numbered waitlistDriverStatus ?D))
        = map (\<lambda>s. Some (StringValue s)) (map snd (numbered waitlistDriverStatus ?D))"
      by (simp add: numbered_def comp_def case_prod_unfold updateSignup_waitlistDriver)
    also have "\<dots> = map (\<lambda>index. Some (StringValue (''Waitlist (driver) - '' @ showNat (index + 1))))
                       [0..<length ?D]"
      by (simp only: numbered_statuses map_map comp_def waitlistDriverStatus_def)
    finally show ?thesis
      by (simp only: positions_from_one
            [of "\<lambda>n. Some (StringValue (''Waitlist (driver) - '' @ showNat n))"])
  qed
  have stn: "map requestStatus (map ?up (numbered waitlistNonDriverStatus ?N))
      = map (\<lambda>n. Some (StringValue (''Waitlist (nondriver) - '' @ showNat n))) [1..<Suc (length ?N)]"
  proof -
    have "map requestStatus (map ?up (numbered waitlistNonDriverStatus ?N))
        = map (\<lambda>s. Some (StringValue s)) (map snd (numbered waitlistNonDriverStatus ?N))"
      by (simp add: numbered_def comp_def case_prod_unfold updateSignup_waitlistNonDriver)
    also have "\<dots> = map (\<lambda>index. Some (StringValue (''Waitlist (nondriver) - '' @ showNat (index + 1))))
                       [0..<length ?N]"
      by (simp only: numbered_statuses map_map comp_def waitlistNonDriverStatus_def)
    finally show ?thesis
      by (simp only: positions_from_one
            [of "\<lambda>n. Some (StringValue (''Waitlist (nondriver) - '' @ showNat n))"])
  qed
  have sts: "map requestStatus (writesOf (effects ?o))
      = map (\<lambda>i. Some (StringValue (selectedStatus (IsDriver (the (?m i)))))) ?R
        @ map (\<lambda>n. Some (StringValue (''Waitlist (driver) - '' @ showNat n))) [1..<Suc (length ?D)]
        @ map (\<lambda>n. Some (StringValue (''Waitlist (nondriver) - '' @ showNat n))) [1..<Suc (length ?N)]"
    by (simp only: ws map_append str std stn)
  from approve_matched(2) [of c t p r w f, OF assms] sub ids sts show ?thesis
    by (intro conjI)
qed

theorem approve_skips_unresolved_witness:
  "[''trip1'' \<mapsto> mkProposal [''a'', ''x''] [''b'', ''y'', ''c''] 0] ''trip1''
      = Some (mkProposal [''a'', ''x''] [''b'', ''y'', ''c''] 0)
   \<and> idsMatch [''a'', ''x''] (rosterIds (mkProposal [''a'', ''x''] [''b'', ''y'', ''c''] 0))
   \<and> idsMatch [''b'', ''y'', ''c''] (waitlistIds (mkProposal [''a'', ''x''] [''b'', ''y'', ''c''] 0))
   \<and> response (approveRandomization
          [''trip1'' \<mapsto> mkProposal [''a'', ''x''] [''b'', ''y'', ''c''] 0] ''trip1''
          [''a'', ''x''] [''b'', ''y'', ''c'']
          [mkSignup ''a'' ''Ann'' False ''UNKNOWN'', mkSignup ''b'' ''Bob'' True ''UNKNOWN'',
           mkSignup ''c'' ''Cy'' True ''UNKNOWN'']) = Inr (2, 3)
   \<and> map requestId (writesOf (effects (approveRandomization
          [''trip1'' \<mapsto> mkProposal [''a'', ''x''] [''b'', ''y'', ''c''] 0] ''trip1''
          [''a'', ''x''] [''b'', ''y'', ''c'']
          [mkSignup ''a'' ''Ann'' False ''UNKNOWN'', mkSignup ''b'' ''Bob'' True ''UNKNOWN'',
           mkSignup ''c'' ''Cy'' True ''UNKNOWN''])))
       = [''a'', ''b'', ''c'']
   \<and> map requestStatus (writesOf (effects (approveRandomization
          [''trip1'' \<mapsto> mkProposal [''a'', ''x''] [''b'', ''y'', ''c''] 0] ''trip1''
          [''a'', ''x''] [''b'', ''y'', ''c'']
          [mkSignup ''a'' ''Ann'' False ''UNKNOWN'', mkSignup ''b'' ''Bob'' True ''UNKNOWN'',
           mkSignup ''c'' ''Cy'' True ''UNKNOWN''])))
       = [Some (StringValue ''Selected (nondriver)''),
          Some (StringValue ''Waitlist (driver) - 1''),
          Some (StringValue ''Waitlist (driver) - 2'')]"
  using approve_skips_unresolved
    [of "[''trip1'' \<mapsto> mkProposal [''a'', ''x''] [''b'', ''y'', ''c''] 0]" "''trip1''"
        "mkProposal [''a'', ''x''] [''b'', ''y'', ''c''] 0"
        "[''a'', ''x'']" "[''b'', ''y'', ''c'']"
        "[mkSignup ''a'' ''Ann'' False ''UNKNOWN'', mkSignup ''b'' ''Bob'' True ''UNKNOWN'',
          mkSignup ''c'' ''Cy'' True ''UNKNOWN'']"]
  by (simp add: idsMatch_def signupMapOf_def selectedStatus_def showNat.simps digitChar_def
        upt_rec)

section \<open>The allocator\<close>

lemma sliceIndex_le: "sliceIndex i len \<le> len"
  by (auto simp: sliceIndex_def)

lemma jsSlice_zero: "jsSlice xs 0 n = take (sliceIndex n (length xs)) xs"
  by (simp add: jsSlice_def sliceIndex_def Let_def)

lemma allocate_shape:
  fixes dn nn :: int and D N :: "Signup list"
  defines "a \<equiv> allocate dn nn D N"
  shows "\<exists>kd kn j.
      selectedAsDrivers a = take kd D
    \<and> driversUsedAsNonDrivers a = take j (drop kd D)
    \<and> selectedAsNonDrivers a = take kn N @ driversUsedAsNonDrivers a
    \<and> rejectedDrivers a = drop j (drop kd D)
    \<and> rejectedNonDrivers a = drop kn N
    \<and> proposedRoster a = selectedAsDrivers a @ selectedAsNonDrivers a
    \<and> proposedWaitlist a = rejectedDrivers a @ rejectedNonDrivers a
    \<and> kn \<le> length N
    \<and> (0 \<le> dn \<longrightarrow> int kd \<le> dn)
    \<and> (0 \<le> nn \<longrightarrow> int kn + int j \<le> nn)
    \<and> (0 < j \<longrightarrow> drop kn N = [])"
proof -
  let ?kd = "sliceIndex dn (length D)"
  let ?kn = "sliceIndex nn (length N)"
  let ?rem = "drop ?kd D"
  let ?bf = "int ?kn < nn \<and> length ?rem > 0"
  let ?j = "if ?bf then sliceIndex (nn - int ?kn) (length ?rem) else 0"
  have kn: "?kn \<le> length N" by (rule sliceIndex_le)
  have filled: "length (take ?kn N) = ?kn" using kn by simp
  have a: "a = \<lparr> selectedAsDrivers = take ?kd D,
           selectedAsNonDrivers = take ?kn N @ take ?j ?rem,
           driversUsedAsNonDrivers = take ?j ?rem,
           rejectedDrivers = drop ?j ?rem,
           rejectedNonDrivers = drop ?kn N,
           proposedRoster = take ?kd D @ take ?kn N @ take ?j ?rem,
           proposedWaitlist = drop ?j ?rem @ drop ?kn N \<rparr>"
    unfolding a_def allocate_def jsSlice_zero jsSliceFrom_def Let_def filled
    by (simp del: length_drop)
  have b1: "0 \<le> dn \<longrightarrow> int ?kd \<le> dn" by (auto simp: sliceIndex_def)
  have b2: "0 \<le> nn \<longrightarrow> int ?kn + int ?j \<le> nn" by (auto simp: sliceIndex_def)
  have b3: "0 < ?j \<longrightarrow> drop ?kn N = []"
    by (auto simp: sliceIndex_def split: if_splits)
  have f1: "selectedAsDrivers a = take ?kd D" by (subst a) simp
  have f2: "driversUsedAsNonDrivers a = take ?j ?rem" by (subst a) simp
  have f3: "selectedAsNonDrivers a = take ?kn N @ take ?j ?rem" by (subst a) simp
  have f4: "rejectedDrivers a = drop ?j ?rem" by (subst a) simp
  have f5: "rejectedNonDrivers a = drop ?kn N" by (subst a) simp
  have f6: "proposedRoster a = take ?kd D @ take ?kn N @ take ?j ?rem" by (subst a) simp
  have f7: "proposedWaitlist a = drop ?j ?rem @ drop ?kn N" by (subst a) simp
  show ?thesis
    apply (rule exI [of _ ?kd], rule exI [of _ ?kn], rule exI [of _ ?j])
    unfolding f1 f2 f3 f4 f5 f6 f7
    using kn b1 b2 b3 by (intro conjI) (rule refl | assumption)+
qed

lemma allocate_asymmetry:
  fixes dn nn :: int and D N :: "Signup list"
  assumes dr: "\<forall>s \<in> set D. IsDriver s" and nd: "\<forall>s \<in> set N. \<not> IsDriver s"
  defines "a \<equiv> allocate dn nn D N"
  shows "\<forall>s \<in> set (selectedAsDrivers a). IsDriver s"
    and "filter IsDriver (selectedAsNonDrivers a) = driversUsedAsNonDrivers a"
    and "mset (selectedAsDrivers a) + mset (driversUsedAsNonDrivers a) + mset (rejectedDrivers a)
           = mset D"
    and "mset (filter (\<lambda>s. \<not> IsDriver s) (selectedAsNonDrivers a)) + mset (rejectedNonDrivers a)
           = mset N"
    and "driversUsedAsNonDrivers a \<noteq> [] \<longrightarrow> rejectedNonDrivers a = []"
proof -
  obtain kd kn j where
      f1: "selectedAsDrivers a = take kd D"
    and f2: "driversUsedAsNonDrivers a = take j (drop kd D)"
    and f3: "selectedAsNonDrivers a = take kn N @ driversUsedAsNonDrivers a"
    and f4: "rejectedDrivers a = drop j (drop kd D)"
    and f5: "rejectedNonDrivers a = drop kn N"
    and b3: "0 < j \<longrightarrow> drop kn N = []"
    using allocate_shape [of dn nn D N] unfolding a_def by blast
  have tD: "\<And>xs. set xs \<subseteq> set D \<Longrightarrow> filter IsDriver xs = xs"
    using dr by (auto simp: filter_id_conv)
  have tD': "\<And>xs. set xs \<subseteq> set D \<Longrightarrow> filter (\<lambda>s. \<not> IsDriver s) xs = []"
    using dr by (auto simp: filter_empty_conv)
  have tN: "\<And>xs. set xs \<subseteq> set N \<Longrightarrow> filter IsDriver xs = []"
    using nd by (auto simp: filter_empty_conv)
  have tN': "\<And>xs. set xs \<subseteq> set N \<Longrightarrow> filter (\<lambda>s. \<not> IsDriver s) xs = xs"
    using nd by (auto simp: filter_id_conv)
  have uD: "set (take j (drop kd D)) \<subseteq> set D"
    by (meson set_take_subset set_drop_subset subset_trans)
  have sN: "set (take kn N) \<subseteq> set N" by (rule set_take_subset)
  show "\<forall>s \<in> set (selectedAsDrivers a). IsDriver s"
    unfolding f1 using dr by (auto dest: in_set_takeD)
  show "filter IsDriver (selectedAsNonDrivers a) = driversUsedAsNonDrivers a"
    unfolding f3 f2 by (simp add: tN [OF sN] tD [OF uD])
  have "take kd D @ take j (drop kd D) @ drop j (drop kd D) = D"
    by (simp only: append_take_drop_id)
  then have "mset (take kd D @ take j (drop kd D) @ drop j (drop kd D)) = mset D"
    by (simp only:)
  then show "mset (selectedAsDrivers a) + mset (driversUsedAsNonDrivers a) + mset (rejectedDrivers a)
           = mset D"
    unfolding f1 f2 f4 by (simp only: mset_append add.assoc)
  have "filter (\<lambda>s. \<not> IsDriver s) (selectedAsNonDrivers a) = take kn N"
    unfolding f3 f2 by (simp add: tN' [OF sN] tD' [OF uD])
  then show "mset (filter (\<lambda>s. \<not> IsDriver s) (selectedAsNonDrivers a)) + mset (rejectedNonDrivers a)
           = mset N"
    unfolding f5 by (simp only: mset_append [symmetric] append_take_drop_id)
  show "driversUsedAsNonDrivers a \<noteq> [] \<longrightarrow> rejectedNonDrivers a = []"
    unfolding f2 f5 using b3 by (cases j) auto
qed

lemma randomize_Inr:
  assumes "randomize sd sn now cache t trip allSignups = Inr (cache', a)"
  shows "a = allocate (orZero (AdditionalDriversRequired trip)) (orZero (NonDriversCapacity trip))
               (sd (filter IsDriver allSignups)) (sn (filter (\<lambda>s. \<not> IsDriver s) allSignups))"
    and "cache' = cache(t \<mapsto> \<lparr> rosterIds = map signupId (proposedRoster a),
                            waitlistIds = map signupId (proposedWaitlist a), timestamp = now \<rparr>)"
  using assms by (auto simp: randomize_def Let_def split: if_splits)

lemma randomize_succeeds:
  assumes "orZero (AdditionalDriversRequired trip) \<noteq> 0 \<or> orZero (NonDriversCapacity trip) \<noteq> 0"
    and "allSignups \<noteq> []"
  shows "randomize sd sn now cache t trip allSignups
     = Inr (cache(t \<mapsto> \<lparr> rosterIds = map signupId (proposedRoster
               (allocate (orZero (AdditionalDriversRequired trip)) (orZero (NonDriversCapacity trip))
               (sd (filter IsDriver allSignups)) (sn (filter (\<lambda>s. \<not> IsDriver s) allSignups)))),
             waitlistIds = map signupId (proposedWaitlist
               (allocate (orZero (AdditionalDriversRequired trip)) (orZero (NonDriversCapacity trip))
               (sd (filter IsDriver allSignups)) (sn (filter (\<lambda>s. \<not> IsDriver s) allSignups)))),
             timestamp = now \<rparr>),
            allocate (orZero (AdditionalDriversRequired trip)) (orZero (NonDriversCapacity trip))
               (sd (filter IsDriver allSignups)) (sn (filter (\<lambda>s. \<not> IsDriver s) allSignups)))"
  using assms by (auto simp: randomize_def Let_def)

text \<open>
  Claim C6, as amended. For every run of the allocator that produces a proposal, whatever
  the pools and the shuffles: if the trip satisfies
  \<open>driverSlots + nonDriverCapacity = totalCapacity\<close> and the two slot counts are not
  negative, the selected drivers and the selected non-drivers together are at most
  \<open>totalCapacity\<close>, and the selected drivers are at most the driver slots needed. The
  proposed roster is the two selections, one after the other.
\<close>

theorem randomize_capacity:
  assumes "orZero (AdditionalDriversRequired trip) + orZero (NonDriversCapacity trip)
             = orZero (CapacityIncludingLeads trip)"
    and "0 \<le> orZero (AdditionalDriversRequired trip)"
    and "0 \<le> orZero (NonDriversCapacity trip)"
  shows "case randomize sd sn now cache t trip allSignups of
           Inl e \<Rightarrow> True
         | Inr (cache', a) \<Rightarrow>
             int (length (selectedAsDrivers a)) + int (length (selectedAsNonDrivers a))
               \<le> orZero (CapacityIncludingLeads trip)
             \<and> int (length (selectedAsDrivers a)) \<le> orZero (AdditionalDriversRequired trip)
             \<and> proposedRoster a = selectedAsDrivers a @ selectedAsNonDrivers a"
proof (cases "randomize sd sn now cache t trip allSignups")
  case (Inl e)
  then show ?thesis by simp
next
  case (Inr res)
  obtain cache' a where res: "res = (cache', a)" by (cases res)
  let ?dn = "orZero (AdditionalDriversRequired trip)"
  let ?nn = "orZero (NonDriversCapacity trip)"
  let ?D = "sd (filter IsDriver allSignups)"
  let ?N = "sn (filter (\<lambda>s. \<not> IsDriver s) allSignups)"
  note a = randomize_Inr(1) [OF Inr [unfolded res]]
  obtain kd kn j where
      f1: "selectedAsDrivers a = take kd ?D"
    and f2: "driversUsedAsNonDrivers a = take j (drop kd ?D)"
    and f3: "selectedAsNonDrivers a = take kn ?N @ driversUsedAsNonDrivers a"
    and f6: "proposedRoster a = selectedAsDrivers a @ selectedAsNonDrivers a"
    and b1: "0 \<le> ?dn \<longrightarrow> int kd \<le> ?dn"
    and b2: "0 \<le> ?nn \<longrightarrow> int kn + int j \<le> ?nn"
    using allocate_shape [of ?dn ?nn ?D ?N] unfolding a [symmetric] by blast
  have d: "int (length (selectedAsDrivers a)) \<le> ?dn"
    unfolding f1 using b1 assms(2) by simp
  have n: "int (length (selectedAsNonDrivers a)) \<le> ?nn"
    unfolding f3 f2 using b2 assms(3) by simp
  from d n f6 assms(1) show ?thesis by (simp add: Inr res)
qed

theorem randomize_capacity_witness:
  "orZero (AdditionalDriversRequired (mkTrip 5 2 3)) + orZero (NonDriversCapacity (mkTrip 5 2 3))
     = orZero (CapacityIncludingLeads (mkTrip 5 2 3))
   \<and> 0 \<le> orZero (AdditionalDriversRequired (mkTrip 5 2 3))
   \<and> 0 \<le> orZero (NonDriversCapacity (mkTrip 5 2 3))
   \<and> (case randomize rev (\<lambda>xs. xs) 0 Map.empty ''trip1'' (mkTrip 5 2 3)
            [mkSignup ''d1'' ''Dan'' True ''UNKNOWN'', mkSignup ''d2'' ''Dee'' True ''UNKNOWN'',
             mkSignup ''d3'' ''Dov'' True ''UNKNOWN'', mkSignup ''n1'' ''Nia'' False ''UNKNOWN'',
             mkSignup ''n2'' ''Ned'' False ''UNKNOWN'', mkSignup ''n3'' ''Nan'' False ''UNKNOWN'',
             mkSignup ''n4'' ''Noa'' False ''UNKNOWN'']
          of Inl e \<Rightarrow> False
           | Inr (cache', a) \<Rightarrow>
               map signupId (selectedAsDrivers a) = [''d3'', ''d2'']
               \<and> map signupId (selectedAsNonDrivers a) = [''n1'', ''n2'', ''n3'']
               \<and> int (length (selectedAsDrivers a)) + int (length (selectedAsNonDrivers a)) \<le> 5
               \<and> int (length (selectedAsDrivers a)) \<le> 2)"
  using randomize_capacity [of "mkTrip 5 2 3" rev "\<lambda>xs. xs" 0 Map.empty "''trip1''"
      "[mkSignup ''d1'' ''Dan'' True ''UNKNOWN'', mkSignup ''d2'' ''Dee'' True ''UNKNOWN'',
        mkSignup ''d3'' ''Dov'' True ''UNKNOWN'', mkSignup ''n1'' ''Nia'' False ''UNKNOWN'',
        mkSignup ''n2'' ''Ned'' False ''UNKNOWN'', mkSignup ''n3'' ''Nan'' False ''UNKNOWN'',
        mkSignup ''n4'' ''Noa'' False ''UNKNOWN'']"]
  by (simp add: randomize_def allocate_def jsSlice_def jsSliceFrom_def sliceIndex_def
        orZero_def Let_def)

text \<open>
  Claim C6 as stated fails for a negative slot count, which \<^verbatim>\<open>|| 0\<close> keeps and
  \<open>slice\<close> counts from the end. With capacity 2, -1 driver slots and 3 non-driver slots
  the invariant holds; of three drivers and one non-driver, \<open>slice(0, -1)\<close> selects two
  drivers, and the non-driver and the third driver fill non-driver slots: four people on
  a roster of capacity 2, and two drivers for -1 slots.
\<close>

theorem randomize_negative_slots_counterexample:
  "orZero (AdditionalDriversRequired (mkTrip 2 (- 1) 3)) + orZero (NonDriversCapacity (mkTrip 2 (- 1) 3))
     = orZero (CapacityIncludingLeads (mkTrip 2 (- 1) 3))
   \<and> (case randomize (\<lambda>xs. xs) (\<lambda>xs. xs) 0 Map.empty ''trip1'' (mkTrip 2 (- 1) 3)
            [mkSignup ''d1'' ''Dan'' True ''UNKNOWN'', mkSignup ''d2'' ''Dee'' True ''UNKNOWN'',
             mkSignup ''d3'' ''Dov'' True ''UNKNOWN'', mkSignup ''n1'' ''Nia'' False ''UNKNOWN'']
          of Inl e \<Rightarrow> False
           | Inr (cache', a) \<Rightarrow>
               map signupId (selectedAsDrivers a) = [''d1'', ''d2'']
               \<and> map signupId (selectedAsNonDrivers a) = [''n1'', ''d3'']
               \<and> \<not> int (length (selectedAsDrivers a)) + int (length (selectedAsNonDrivers a))
                       \<le> orZero (CapacityIncludingLeads (mkTrip 2 (- 1) 3))
               \<and> \<not> int (length (selectedAsDrivers a))
                       \<le> orZero (AdditionalDriversRequired (mkTrip 2 (- 1) 3)))"
  by (simp add: randomize_def allocate_def jsSlice_def jsSliceFrom_def sliceIndex_def
        orZero_def Let_def)

text \<open>
  A negative number of non-driver slots breaks the bound in the same way: with capacity 0,
  one driver slot and -1 non-driver slots, one driver and one of two non-drivers are
  selected.
\<close>

lemma randomize_negative_nondriver_slots:
  "orZero (AdditionalDriversRequired (mkTrip 0 1 (- 1)))
     + orZero (NonDriversCapacity (mkTrip 0 1 (- 1)))
     = orZero (CapacityIncludingLeads (mkTrip 0 1 (- 1)))
   \<and> (case randomize (\<lambda>xs. xs) (\<lambda>xs. xs) 0 Map.empty ''trip1'' (mkTrip 0 1 (- 1))
            [mkSignup ''d1'' ''Dan'' True ''UNKNOWN'', mkSignup ''n1'' ''Nia'' False ''UNKNOWN'',
             mkSignup ''n2'' ''Ned'' False ''UNKNOWN'']
          of Inl e \<Rightarrow> False
           | Inr (cache', a) \<Rightarrow>
               map signupId (selectedAsDrivers a) = [''d1'']
               \<and> map signupId (selectedAsNonDrivers a) = [''n1''])"
  by (simp add: randomize_def allocate_def jsSlice_def jsSliceFrom_def sliceIndex_def
        orZero_def Let_def)

text \<open>
  Claim C4. For every run that produces a proposal, whatever the pools and the slot
  counts, with shuffles that permute their argument: everyone selected as a driver is
  driver-eligible; the drivers among the selected non-drivers are exactly the backfilled
  ones; the selected drivers, the backfilled drivers and the rejected drivers together are
  the driver pool, and the non-drivers among the selected non-drivers together with the
  rejected non-drivers are the non-driver pool, so that no member of the non-driver pool
  is placed in a driver slot; a backfill happens only when no non-driver is left over;
  and the proposal stored for the trip holds the ids of the proposed roster (selected
  drivers, then selected non-drivers) and of the proposed waitlist.
  In the scenario of five driver-eligible signups, one other signup, two driver slots and
  three non-driver slots, the run produces a proposal in which two drivers are selected as
  drivers; the selected non-drivers are the one non-driver followed by two backfilled
  drivers; the waitlist is the one remaining driver; the roster has five members.
\<close>

theorem randomize_backfill_scenario:
  assumes "\<forall>xs. mset (sd xs) = mset xs" and "\<forall>xs. mset (sn xs) = mset xs"
  shows "(case randomize sd sn now cache t trip allSignups of
            Inl e \<Rightarrow> True
          | Inr (cache', a) \<Rightarrow>
              (\<forall>s \<in> set (selectedAsDrivers a). IsDriver s)
              \<and> filter IsDriver (selectedAsNonDrivers a) = driversUsedAsNonDrivers a
              \<and> mset (selectedAsDrivers a) + mset (driversUsedAsNonDrivers a)
                    + mset (rejectedDrivers a) = mset (filter IsDriver allSignups)
              \<and> mset (filter (\<lambda>s. \<not> IsDriver s) (selectedAsNonDrivers a))
                    + mset (rejectedNonDrivers a) = mset (filter (\<lambda>s. \<not> IsDriver s) allSignups)
              \<and> (driversUsedAsNonDrivers a \<noteq> [] \<longrightarrow> rejectedNonDrivers a = [])
              \<and> proposedRoster a = selectedAsDrivers a @ selectedAsNonDrivers a
              \<and> proposedWaitlist a = rejectedDrivers a @ rejectedNonDrivers a
              \<and> cache' t = Some \<lparr> rosterIds = map signupId (proposedRoster a),
                                    waitlistIds = map signupId (proposedWaitlist a),
                                    timestamp = now \<rparr>)
    \<and> (AdditionalDriversRequired trip = Some 2 \<and> NonDriversCapacity trip = Some 3
         \<and> length (filter IsDriver allSignups) = 5
         \<and> length (filter (\<lambda>s. \<not> IsDriver s) allSignups) = 1
       \<longrightarrow> (\<exists>cache' a. randomize sd sn now cache t trip allSignups = Inr (cache', a)
            \<and> length (selectedAsDrivers a) = 2
            \<and> (\<forall>s \<in> set (selectedAsDrivers a). IsDriver s)
            \<and> selectedAsNonDrivers a
                = sn (filter (\<lambda>s. \<not> IsDriver s) allSignups) @ driversUsedAsNonDrivers a
            \<and> mset (sn (filter (\<lambda>s. \<not> IsDriver s) allSignups))
                = mset (filter (\<lambda>s. \<not> IsDriver s) allSignups)
            \<and> length (driversUsedAsNonDrivers a) = 2
            \<and> proposedWaitlist a = rejectedDrivers a
            \<and> length (proposedWaitlist a) = 1
            \<and> mset (selectedAsDrivers a @ driversUsedAsNonDrivers a @ proposedWaitlist a)
                = mset (filter IsDriver allSignups)
            \<and> proposedRoster a = selectedAsDrivers a @ selectedAsNonDrivers a
            \<and> length (proposedRoster a) = 5
            \<and> cache' t = Some \<lparr> rosterIds = map signupId (proposedRoster a),
                                  waitlistIds = map signupId (proposedWaitlist a),
                                  timestamp = now \<rparr>))"
proof (rule conjI)
  let ?D = "sd (filter IsDriver allSignups)"
  let ?N = "sn (filter (\<lambda>s. \<not> IsDriver s) allSignups)"
  have sD: "set ?D = set (filter IsDriver allSignups)"
    using assms(1) by (metis set_mset_mset)
  have sN: "set ?N = set (filter (\<lambda>s. \<not> IsDriver s) allSignups)"
    using assms(2) by (metis set_mset_mset)
  have dr: "\<forall>s \<in> set ?D. IsDriver s" unfolding sD by simp
  have nd: "\<forall>s \<in> set ?N. \<not> IsDriver s" unfolding sN by simp
  have mD: "mset ?D = mset (filter IsDriver allSignups)" using assms(1) by simp
  have mN: "mset ?N = mset (filter (\<lambda>s. \<not> IsDriver s) allSignups)" using assms(2) by simp
  show "case randomize sd sn now cache t trip allSignups of
            Inl e \<Rightarrow> True
          | Inr (cache', a) \<Rightarrow>
              (\<forall>s \<in> set (selectedAsDrivers a). IsDriver s)
              \<and> filter IsDriver (selectedAsNonDrivers a) = driversUsedAsNonDrivers a
              \<and> mset (selectedAsDrivers a) + mset (driversUsedAsNonDrivers a)
                    + mset (rejectedDrivers a) = mset (filter IsDriver allSignups)
              \<and> mset (filter (\<lambda>s. \<not> IsDriver s) (selectedAsNonDrivers a))
                    + mset (rejectedNonDrivers a) = mset (filter (\<lambda>s. \<not> IsDriver s) allSignups)
              \<and> (driversUsedAsNonDrivers a \<noteq> [] \<longrightarrow> rejectedNonDrivers a = [])
              \<and> proposedRoster a = selectedAsDrivers a @ selectedAsNonDrivers a
              \<and> proposedWaitlist a = rejectedDrivers a @ rejectedNonDrivers a
              \<and> cache' t = Some \<lparr> rosterIds = map signupId (proposedRoster a),
                                    waitlistIds = map signupId (proposedWaitlist a),
                                    timestamp = now \<rparr>"
  proof (cases "randomize sd sn now cache t trip allSignups")
    case (Inl e)
    then show ?thesis by simp
  next
    case (Inr res)
    obtain cache' a where res: "res = (cache', a)" by (cases res)
    let ?dn = "orZero (AdditionalDriversRequired trip)"
    let ?nn = "orZero (NonDriversCapacity trip)"
    note a = randomize_Inr(1) [OF Inr [unfolded res]]
    note c = randomize_Inr(2) [OF Inr [unfolded res]]
    note g = allocate_asymmetry [OF dr nd, of ?dn ?nn, folded a]
    obtain kd kn j where
        f6: "proposedRoster a = selectedAsDrivers a @ selectedAsNonDrivers a"
      and f7: "proposedWaitlist a = rejectedDrivers a @ rejectedNonDrivers a"
      using allocate_shape [of ?dn ?nn ?D ?N] unfolding a [symmetric] by blast
    have c': "cache' t = Some \<lparr> rosterIds = map signupId (proposedRoster a),
                                    waitlistIds = map signupId (proposedWaitlist a),
                                    timestamp = now \<rparr>"
      by (subst c) simp
    from g(1) g(2) g(3) [unfolded mD] g(4) [unfolded mN] g(5) f6 f7 c'
    show ?thesis unfolding Inr res by simp
  qed
next
  show "AdditionalDriversRequired trip = Some 2 \<and> NonDriversCapacity trip = Some 3
         \<and> length (filter IsDriver allSignups) = 5
         \<and> length (filter (\<lambda>s. \<not> IsDriver s) allSignups) = 1
       \<longrightarrow> (\<exists>cache' a. randomize sd sn now cache t trip allSignups = Inr (cache', a)
            \<and> length (selectedAsDrivers a) = 2
            \<and> (\<forall>s \<in> set (selectedAsDrivers a). IsDriver s)
            \<and> selectedAsNonDrivers a
                = sn (filter (\<lambda>s. \<not> IsDriver s) allSignups) @ driversUsedAsNonDrivers a
            \<and> mset (sn (filter (\<lambda>s. \<not> IsDriver s) allSignups))
                = mset (filter (\<lambda>s. \<not> IsDriver s) allSignups)
            \<and> length (driversUsedAsNonDrivers a) = 2
            \<and> proposedWaitlist a = rejectedDrivers a
            \<and> length (proposedWaitlist a) = 1
            \<and> mset (selectedAsDrivers a @ driversUsedAsNonDrivers a @ proposedWaitlist a)
                = mset (filter IsDriver allSignups)
            \<and> proposedRoster a = selectedAsDrivers a @ selectedAsNonDrivers a
            \<and> length (proposedRoster a) = 5
            \<and> cache' t = Some \<lparr> rosterIds = map signupId (proposedRoster a),
                                  waitlistIds = map signupId (proposedWaitlist a),
                                  timestamp = now \<rparr>)"
  proof
    assume h: "AdditionalDriversRequired trip = Some 2 \<and> NonDriversCapacity trip = Some 3
         \<and> length (filter IsDriver allSignups) = 5
         \<and> length (filter (\<lambda>s. \<not> IsDriver s) allSignups) = 1"
    let ?D = "sd (filter IsDriver allSignups)"
    let ?N = "sn (filter (\<lambda>s. \<not> IsDriver s) allSignups)"
    let ?a = "allocate 2 3 ?D ?N"
    have lD: "length ?D = 5"
      using assms(1) h by (metis size_mset)
    have lN: "length ?N = 1"
      using assms(2) h by (metis size_mset)
    have sD: "set ?D = set (filter IsDriver allSignups)"
      using assms(1) by (metis set_mset_mset)
    have ne: "allSignups \<noteq> []" using h by auto
    have dn: "orZero (AdditionalDriversRequired trip) = 2"
      and nn: "orZero (NonDriversCapacity trip) = 3"
      using h by (simp_all add: orZero_def)
    have run: "randomize sd sn now cache t trip allSignups
       = Inr (cache(t \<mapsto> \<lparr> rosterIds = map signupId (proposedRoster ?a),
               waitlistIds = map signupId (proposedWaitlist ?a), timestamp = now \<rparr>), ?a)"
      using randomize_succeeds [of trip allSignups sd sn now cache t] ne by (simp add: dn nn)
    have fields:
      "selectedAsDrivers ?a = take 2 ?D"
      "driversUsedAsNonDrivers ?a = take 2 (drop 2 ?D)"
      "selectedAsNonDrivers ?a = ?N @ take 2 (drop 2 ?D)"
      "rejectedDrivers ?a = drop 4 ?D"
      "rejectedNonDrivers ?a = []"
      "proposedRoster ?a = take 2 ?D @ ?N @ take 2 (drop 2 ?D)"
      "proposedWaitlist ?a = drop 4 ?D"
    proof -
      have si: "sliceIndex 2 5 = 2" "sliceIndex 3 (Suc 0) = Suc 0" "sliceIndex 2 3 = 2"
        by (simp_all add: sliceIndex_def)
      have a: "?a = \<lparr> selectedAsDrivers = take 2 ?D,
           selectedAsNonDrivers = ?N @ take 2 (drop 2 ?D),
           driversUsedAsNonDrivers = take 2 (drop 2 ?D),
           rejectedDrivers = drop 4 ?D,
           rejectedNonDrivers = [],
           proposedRoster = take 2 ?D @ ?N @ take 2 (drop 2 ?D),
           proposedWaitlist = drop 4 ?D \<rparr>"
        by (simp add: allocate_def jsSlice_zero jsSliceFrom_def Let_def lD lN si)
      show "selectedAsDrivers ?a = take 2 ?D"
        "driversUsedAsNonDrivers ?a = take 2 (drop 2 ?D)"
        "selectedAsNonDrivers ?a = ?N @ take 2 (drop 2 ?D)"
        "rejectedDrivers ?a = drop 4 ?D"
        "rejectedNonDrivers ?a = []"
        "proposedRoster ?a = take 2 ?D @ ?N @ take 2 (drop 2 ?D)"
        "proposedWaitlist ?a = drop 4 ?D"
        by (simp_all only: a Allocation.simps)
    qed
    have 1: "length (selectedAsDrivers ?a) = 2" by (simp add: fields lD)
    have 2: "\<forall>s \<in> set (selectedAsDrivers ?a). IsDriver s"
    proof
      fix s assume "s \<in> set (selectedAsDrivers ?a)"
      then have "s \<in> set ?D" by (auto simp: fields dest: in_set_takeD)
      then show "IsDriver s" unfolding sD by simp
    qed
    have 3: "selectedAsNonDrivers ?a = ?N @ driversUsedAsNonDrivers ?a"
      by (simp add: fields)
    have 4: "mset ?N = mset (filter (\<lambda>s. \<not> IsDriver s) allSignups)" using assms(2) by simp
    have 5: "length (driversUsedAsNonDrivers ?a) = 2" by (simp add: fields lD)
    have 6: "proposedWaitlist ?a = rejectedDrivers ?a" by (simp add: fields)
    have 7: "length (proposedWaitlist ?a) = 1" by (simp add: fields lD)
    have "selectedAsDrivers ?a @ driversUsedAsNonDrivers ?a @ proposedWaitlist ?a
        = take 2 ?D @ take 2 (drop 2 ?D) @ drop 2 (drop 2 ?D)"
      by (simp add: fields)
    also have "\<dots> = ?D" by (simp only: append_take_drop_id)
    finally have 8: "mset (selectedAsDrivers ?a @ driversUsedAsNonDrivers ?a @ proposedWaitlist ?a)
          = mset (filter IsDriver allSignups)"
      using assms(1) by simp
    have 9: "proposedRoster ?a = selectedAsDrivers ?a @ selectedAsNonDrivers ?a"
      by (simp add: fields)
    have 10: "length (proposedRoster ?a) = 5" by (simp add: fields lD lN)
    have 11: "(cache(t \<mapsto> \<lparr> rosterIds = map signupId (proposedRoster ?a),
               waitlistIds = map signupId (proposedWaitlist ?a), timestamp = now \<rparr>)) t
        = Some \<lparr> rosterIds = map signupId (proposedRoster ?a),
               waitlistIds = map signupId (proposedWaitlist ?a), timestamp = now \<rparr>"
      by simp
    from run 1 2 3 4 5 6 7 8 9 10 11 show "\<exists>cache' a. randomize sd sn now cache t trip allSignups = Inr (cache', a)
            \<and> length (selectedAsDrivers a) = 2
            \<and> (\<forall>s \<in> set (selectedAsDrivers a). IsDriver s)
            \<and> selectedAsNonDrivers a
                = sn (filter (\<lambda>s. \<not> IsDriver s) allSignups) @ driversUsedAsNonDrivers a
            \<and> mset (sn (filter (\<lambda>s. \<not> IsDriver s) allSignups))
                = mset (filter (\<lambda>s. \<not> IsDriver s) allSignups)
            \<and> length (driversUsedAsNonDrivers a) = 2
            \<and> proposedWaitlist a = rejectedDrivers a
            \<and> length (proposedWaitlist a) = 1
            \<and> mset (selectedAsDrivers a @ driversUsedAsNonDrivers a @ proposedWaitlist a)
                = mset (filter IsDriver allSignups)
            \<and> proposedRoster a = selectedAsDrivers a @ selectedAsNonDrivers a
            \<and> length (proposedRoster a) = 5
            \<and> cache' t = Some \<lparr> rosterIds = map signupId (proposedRoster a),
                                  waitlistIds = map signupId (proposedWaitlist a),
                                  timestamp = now \<rparr>"
      by blast
  qed
qed

theorem randomize_backfill_scenario_witness:
  "(\<forall>xs :: Signup list. mset (rev xs) = mset xs) \<and> (\<forall>xs :: Signup list. mset xs = mset xs)
   \<and> AdditionalDriversRequired (mkTrip 5 2 3) = Some 2
   \<and> NonDriversCapacity (mkTrip 5 2 3) = Some 3
   \<and> length (filter IsDriver
         [mkSignup ''d1'' ''Dan'' True ''UNKNOWN'', mkSignup ''d2'' ''Dee'' True ''UNKNOWN'',
          mkSignup ''n1'' ''Nia'' False ''UNKNOWN'', mkSignup ''d3'' ''Dov'' True ''UNKNOWN'',
          mkSignup ''d4'' ''Dug'' True ''UNKNOWN'', mkSignup ''d5'' ''Dot'' True ''UNKNOWN'']) = 5
   \<and> length (filter (\<lambda>s. \<not> IsDriver s)
         [mkSignup ''d1'' ''Dan'' True ''UNKNOWN'', mkSignup ''d2'' ''Dee'' True ''UNKNOWN'',
          mkSignup ''n1'' ''Nia'' False ''UNKNOWN'', mkSignup ''d3'' ''Dov'' True ''UNKNOWN'',
          mkSignup ''d4'' ''Dug'' True ''UNKNOWN'', mkSignup ''d5'' ''Dot'' True ''UNKNOWN'']) = 1
   \<and> (case randomize rev (\<lambda>xs. xs) 0 Map.empty ''trip1'' (mkTrip 5 2 3)
         [mkSignup ''d1'' ''Dan'' True ''UNKNOWN'', mkSignup ''d2'' ''Dee'' True ''UNKNOWN'',
          mkSignup ''n1'' ''Nia'' False ''UNKNOWN'', mkSignup ''d3'' ''Dov'' True ''UNKNOWN'',
          mkSignup ''d4'' ''Dug'' True ''UNKNOWN'', mkSignup ''d5'' ''Dot'' True ''UNKNOWN'']
        of Inl e \<Rightarrow> False
         | Inr (cache', a) \<Rightarrow>
             map signupId (selectedAsDrivers a) = [''d5'', ''d4'']
             \<and> map signupId (selectedAsNonDrivers a) = [''n1'', ''d3'', ''d2'']
             \<and> map signupId (proposedWaitlist a) = [''d1'']
             \<and> cache' ''trip1''
                 = Some (mkProposal [''d5'', ''d4'', ''n1'', ''d3'', ''d2''] [''d1''] 0))
   \<and> (case randomize rev (\<lambda>xs. xs) 0 Map.empty ''trip1'' (mkTrip 4 3 1)
         [mkSignup ''d1'' ''Dan'' True ''UNKNOWN'', mkSignup ''n1'' ''Nia'' False ''UNKNOWN'',
          mkSignup ''n2'' ''Ned'' False ''UNKNOWN'', mkSignup ''n3'' ''Nan'' False ''UNKNOWN'']
        of Inl e \<Rightarrow> False
         | Inr (cache', a) \<Rightarrow>
             map signupId (selectedAsDrivers a) = [''d1'']
             \<and> map signupId (selectedAsNonDrivers a) = [''n1'']
             \<and> map signupId (proposedWaitlist a) = [''n2'', ''n3''])"
  using randomize_backfill_scenario [where sd = rev and sn = "\<lambda>xs. xs" and now = 0
      and cache = Map.empty and t = "''trip1''" and trip = "mkTrip 5 2 3" and allSignups =
      "[mkSignup ''d1'' ''Dan'' True ''UNKNOWN'', mkSignup ''d2'' ''Dee'' True ''UNKNOWN'',
        mkSignup ''n1'' ''Nia'' False ''UNKNOWN'', mkSignup ''d3'' ''Dov'' True ''UNKNOWN'',
        mkSignup ''d4'' ''Dug'' True ''UNKNOWN'', mkSignup ''d5'' ''Dot'' True ''UNKNOWN'']"]
    randomize_backfill_scenario [where sd = rev and sn = "\<lambda>xs. xs" and now = 0
      and cache = Map.empty and t = "''trip1''" and trip = "mkTrip 4 3 1" and allSignups =
      "[mkSignup ''d1'' ''Dan'' True ''UNKNOWN'', mkSignup ''n1'' ''Nia'' False ''UNKNOWN'',
        mkSignup ''n2'' ''Ned'' False ''UNKNOWN'', mkSignup ''n3'' ''Nan'' False ''UNKNOWN'']"]
  by (simp add: randomize_def allocate_def jsSlice_def jsSliceFrom_def sliceIndex_def
        orZero_def Let_def)

section \<open>Classification of the statuses that the server writes\<close>

lemma showNat_datechars: "set (showNat n) \<subseteq> set ''0123456789/''"
proof
  fix c assume "c \<in> set (showNat n)"
  then have "c \<in> set ''0123456789''" using showNat_digits [of n] by (rule_tac subsetD)
  then have "c = CHR ''0'' \<or> c = CHR ''1'' \<or> c = CHR ''2'' \<or> c = CHR ''3'' \<or> c = CHR ''4''
      \<or> c = CHR ''5'' \<or> c = CHR ''6'' \<or> c = CHR ''7'' \<or> c = CHR ''8'' \<or> c = CHR ''9''"
    by simp
  then show "c \<in> set ''0123456789/''" by (elim disjE) simp_all
qed

lemma not_includes_suffix:
  assumes "set suf \<subseteq> set ''0123456789/''" and "c \<in> set sub" and "c \<notin> set pre"
    and "c \<notin> set ''0123456789/''"
  shows "\<not> str_includes (pre @ suf) sub"
proof -
  have "c \<notin> set suf" using assms(1,4) by (meson subsetD)
  then have "c \<notin> set (pre @ suf)" using assms(3) by (simp only: set_append Un_iff) blast
  with assms(2) show ?thesis by (rule str_includes_absent)
qed

lemma waitlistDriver_class:
  assumes "set suf \<subseteq> set ''0123456789/''" and "Status s = ''Waitlist (driver) - '' @ suf"
  shows "\<not> rosterFilter s \<and> waitlistFilter s \<and> \<not> droppedFilter s"
proof -
  have l: "statusLower s = ''waitlist (driver) - '' @ suf"
    unfolding statusLower_def assms(2) toLowerCase_append_fixed [OF assms(1)]
    by (simp add: toLowerCase_def charToLower_def)
  have 1: "\<not> str_includes (statusLower s) ''selected''"
    unfolding l by (rule not_includes_suffix [OF assms(1), of "CHR ''c''"]) simp_all
  have 2: "\<not> str_includes (statusLower s) ''on trip''"
    unfolding l by (rule not_includes_suffix [OF assms(1), of "CHR ''p''"]) simp_all
  have 3: "\<not> str_includes (statusLower s) ''dropped''"
    unfolding l by (rule not_includes_suffix [OF assms(1), of "CHR ''p''"]) simp_all
  have 4: "str_includes (statusLower s) ''waitlist''"
    unfolding l by simp
  from 1 2 3 4 show ?thesis
    by (simp add: rosterFilter_def waitlistFilter_def droppedFilter_def Let_def)
qed

lemma waitlistNonDriver_class:
  assumes "set suf \<subseteq> set ''0123456789/''" and "Status s = ''Waitlist (nondriver) - '' @ suf"
  shows "\<not> rosterFilter s \<and> waitlistFilter s \<and> \<not> droppedFilter s"
proof -
  have l: "statusLower s = ''waitlist (nondriver) - '' @ suf"
    unfolding statusLower_def assms(2) toLowerCase_append_fixed [OF assms(1)]
    by (simp add: toLowerCase_def charToLower_def)
  have 1: "\<not> str_includes (statusLower s) ''selected''"
    unfolding l by (rule not_includes_suffix [OF assms(1), of "CHR ''c''"]) simp_all
  have 2: "\<not> str_includes (statusLower s) ''on trip''"
    unfolding l by (rule not_includes_suffix [OF assms(1), of "CHR ''p''"]) simp_all
  have 3: "\<not> str_includes (statusLower s) ''dropped''"
    unfolding l by (rule not_includes_suffix [OF assms(1), of "CHR ''p''"]) simp_all
  have 4: "str_includes (statusLower s) ''waitlist''"
    unfolding l by simp
  from 1 2 3 4 show ?thesis
    by (simp add: rosterFilter_def waitlistFilter_def droppedFilter_def Let_def)
qed

lemma dropped_class:
  assumes "set suf \<subseteq> set ''0123456789/''" and "Status s = ''Dropped- '' @ suf"
  shows "\<not> rosterFilter s \<and> \<not> waitlistFilter s \<and> droppedFilter s"
proof -
  have l: "statusLower s = ''dropped- '' @ suf"
    unfolding statusLower_def assms(2) toLowerCase_append_fixed [OF assms(1)]
    by (simp add: toLowerCase_def charToLower_def)
  have 1: "\<not> str_includes (statusLower s) ''waitlist''"
    unfolding l by (rule not_includes_suffix [OF assms(1), of "CHR ''w''"]) simp_all
  have 2: "str_includes (statusLower s) ''dropped''"
    unfolding l by simp
  from 1 2 show ?thesis
    by (simp add: rosterFilter_def waitlistFilter_def droppedFilter_def Let_def)
qed

lemma selected_class:
  assumes "Status s = selectedStatus b"
  shows "rosterFilter s \<and> \<not> waitlistFilter s \<and> \<not> droppedFilter s"
proof (cases b)
  case True
  have "statusLower s = ''selected (driver)''"
    unfolding statusLower_def assms by (simp add: True selectedStatus_def toLowerCase_def charToLower_def)
  then show ?thesis
    by (simp add: rosterFilter_def waitlistFilter_def droppedFilter_def Let_def)
next
  case False
  have "statusLower s = ''selected (nondriver)''"
    unfolding statusLower_def assms by (simp add: False selectedStatus_def toLowerCase_def charToLower_def)
  then show ?thesis
    by (simp add: rosterFilter_def waitlistFilter_def droppedFilter_def Let_def)
qed

text \<open>
  Claim C5. The status strings that the server writes are \<open>selectedStatus b\<close>
  ("Selected (driver)", "Selected (nondriver)"), \<open>waitlistDriverStatus k\<close> and
  \<open>waitlistNonDriverStatus k\<close> ("Waitlist (driver) - N", "Waitlist (nondriver) - N" with
  N = k + 1) and \<open>droppedStatus todayDate\<close> ("Dropped- MM/DD/YYYY", the date being made
  of digits and slashes). \<open>updateSignup\<close> sends each of them unchanged, and a signup
  with such a status passes exactly one of the three filters: the roster filter for the
  first kind, the waitlist filter for the second and third, the dropped filter for the last.
\<close>

theorem written_statuses_classified:
  fixes s :: Signup
  assumes "set todayDate \<subseteq> set ''0123456789/''"
  shows
    "(requestStatus (updateSignup i (Some (selectedStatus b))) = Some (StringValue (selectedStatus b))
        \<and> rosterFilter (s\<lparr>Status := selectedStatus b\<rparr>)
        \<and> \<not> waitlistFilter (s\<lparr>Status := selectedStatus b\<rparr>)
        \<and> \<not> droppedFilter (s\<lparr>Status := selectedStatus b\<rparr>))
     \<and> (requestStatus (updateSignup i (Some (waitlistDriverStatus k)))
          = Some (StringValue (waitlistDriverStatus k))
        \<and> \<not> rosterFilter (s\<lparr>Status := waitlistDriverStatus k\<rparr>)
        \<and> waitlistFilter (s\<lparr>Status := waitlistDriverStatus k\<rparr>)
        \<and> \<not> droppedFilter (s\<lparr>Status := waitlistDriverStatus k\<rparr>))
     \<and> (requestStatus (updateSignup i (Some (waitlistNonDriverStatus k)))
          = Some (StringValue (waitlistNonDriverStatus k))
        \<and> \<not> rosterFilter (s\<lparr>Status := waitlistNonDriverStatus k\<rparr>)
        \<and> waitlistFilter (s\<lparr>Status := waitlistNonDriverStatus k\<rparr>)
        \<and> \<not> droppedFilter (s\<lparr>Status := waitlistNonDriverStatus k\<rparr>))
     \<and> (requestStatus (updateSignup i (Some (droppedStatus todayDate)))
          = Some (StringValue (droppedStatus todayDate))
        \<and> \<not> rosterFilter (s\<lparr>Status := droppedStatus todayDate\<rparr>)
        \<and> \<not> waitlistFilter (s\<lparr>Status := droppedStatus todayDate\<rparr>)
        \<and> droppedFilter (s\<lparr>Status := droppedStatus todayDate\<rparr>))"
proof -
  have sel: "rosterFilter (s\<lparr>Status := selectedStatus b\<rparr>)
        \<and> \<not> waitlistFilter (s\<lparr>Status := selectedStatus b\<rparr>)
        \<and> \<not> droppedFilter (s\<lparr>Status := selectedStatus b\<rparr>)"
    by (rule selected_class [of _ b]) simp
  have wd: "\<not> rosterFilter (s\<lparr>Status := waitlistDriverStatus k\<rparr>)
        \<and> waitlistFilter (s\<lparr>Status := waitlistDriverStatus k\<rparr>)
        \<and> \<not> droppedFilter (s\<lparr>Status := waitlistDriverStatus k\<rparr>)"
    by (rule waitlistDriver_class [OF showNat_datechars [of "k + 1"]])
       (simp add: waitlistDriverStatus_def)
  have wn: "\<not> rosterFilter (s\<lparr>Status := waitlistNonDriverStatus k\<rparr>)
        \<and> waitlistFilter (s\<lparr>Status := waitlistNonDriverStatus k\<rparr>)
        \<and> \<not> droppedFilter (s\<lparr>Status := waitlistNonDriverStatus k\<rparr>)"
    by (rule waitlistNonDriver_class [OF showNat_datechars [of "k + 1"]])
       (simp add: waitlistNonDriverStatus_def)
  have dr: "\<not> rosterFilter (s\<lparr>Status := droppedStatus todayDate\<rparr>)
        \<and> \<not> waitlistFilter (s\<lparr>Status := droppedStatus todayDate\<rparr>)
        \<and> droppedFilter (s\<lparr>Status := droppedStatus todayDate\<rparr>)"
    by (rule dropped_class [OF assms]) (simp add: droppedStatus_def)
  have u1: "requestStatus (updateSignup i (Some (selectedStatus b)))
      = Some (StringValue (selectedStatus b))"
    by (simp add: updateSignup_def selectedStatus_def)
  have u2: "requestStatus (updateSignup i (Some (waitlistDriverStatus k)))
      = Some (StringValue (waitlistDriverStatus k))"
    by (simp add: updateSignup_def waitlistDriverStatus_def)
  have u3: "requestStatus (updateSignup i (Some (waitlistNonDriverStatus k)))
      = Some (StringValue (waitlistNonDriverStatus k))"
    by (simp add: updateSignup_def waitlistNonDriverStatus_def)
  have u4: "requestStatus (updateSignup i (Some (droppedStatus todayDate)))
      = Some (StringValue (droppedStatus todayDate))"
    by (simp add: updateSignup_def droppedStatus_def)
  from sel wd wn dr u1 u2 u3 u4 show ?thesis by (intro conjI) simp_all
qed

theorem written_statuses_classified_witness:
  "set ''11/03/2026'' \<subseteq> set ''0123456789/''
   \<and> waitlistDriverStatus 10 = ''Waitlist (driver) - 11''
   \<and> droppedStatus ''11/03/2026'' = ''Dropped- 11/03/2026''
   \<and> \<not> rosterFilter (mkSignup ''a'' ''Ann'' True ''Waitlist (driver) - 11'')
   \<and> waitlistFilter (mkSignup ''a'' ''Ann'' True ''Waitlist (driver) - 11'')
   \<and> \<not> droppedFilter (mkSignup ''a'' ''Ann'' True ''Waitlist (driver) - 11'')
   \<and> \<not> rosterFilter (mkSignup ''a'' ''Ann'' True ''Dropped- 11/03/2026'')
   \<and> \<not> waitlistFilter (mkSignup ''a'' ''Ann'' True ''Dropped- 11/03/2026'')
   \<and> droppedFilter (mkSignup ''a'' ''Ann'' True ''Dropped- 11/03/2026'')"
proof -
  have w: "waitlistDriverStatus 10 = ''Waitlist (driver) - 11''"
    by (simp add: waitlistDriverStatus_def showNat.simps digitChar_def)
  have d: "droppedStatus ''11/03/2026'' = ''Dropped- 11/03/2026''"
    by (simp add: droppedStatus_def)
  have c: "set ''11/03/2026'' \<subseteq> set ''0123456789/''"
    by simp
  show ?thesis
    using written_statuses_classified
      [OF c, of "''a''" True "mkSignup ''a'' ''Ann'' True ''UNKNOWN''" 10]
    by (simp add: w d)
qed

section \<open>Promotion from the waitlist\<close>

lemma both_open_not_full:
  assumes "driverSpotsAvailable trip f > 0" and "nonDriverSpotsAvailable trip f > 0"
  shows "int (length (filter rosterFilter f)) < orZero (CapacityIncludingLeads trip)"
  using assms by (simp add: driverSpotsAvailable_def nonDriverSpotsAvailable_def Let_def)

lemma find_filter_hd:
  "find P xs = Some x \<Longrightarrow> \<exists>rest. filter P xs = x # rest"
  by (induction xs) (auto split: if_splits)

text \<open>
  Claim C7. When a driver spot and a non-driver spot are both open and the waitlist holds
  a driver and a non-driver, \<open>addFromWaitlist\<close> promotes the first signup, in the order
  of the fetched list, that is on the waitlist and is a driver, and writes the status
  "Selected (driver)" to it.
\<close>

theorem addFromWaitlist_prefers_driver:
  assumes "driverSpotsAvailable trip f > 0" and "nonDriverSpotsAvailable trip f > 0"
    and "\<exists>s \<in> set f. waitlistFilter s \<and> IsDriver s"
    and "\<exists>s \<in> set f. waitlistFilter s \<and> \<not> IsDriver s"
  shows "\<exists>d. find (\<lambda>s. waitlistFilter s \<and> IsDriver s) f = Some d
    \<and> addFromWaitlist trip f
        = Inr (d, PATCH (signupId d) [(''Status'', StringValue ''Selected (driver)'')])"
proof -
  obtain d where d: "find (\<lambda>s. waitlistFilter s \<and> IsDriver s) f = Some d"
    using assms(3) by (cases "find (\<lambda>s. waitlistFilter s \<and> IsDriver s) f")
      (auto simp: find_None_iff)
  from find_filter_hd [OF d]
  obtain rest where wd0: "filter (\<lambda>s. waitlistFilter s \<and> IsDriver s) f = d # rest"
    by (elim exE)
  have "filter IsDriver (filter waitlistFilter f) = filter (\<lambda>s. waitlistFilter s \<and> IsDriver s) f"
    by (simp only: filter_filter conj_commute)
  with wd0 have wd: "filter IsDriver (filter waitlistFilter f) = d # rest"
    by (simp only:)
  have dd: "IsDriver d" using d by (auto dest: find_Some_iff [THEN iffD1])
  have wl: "filter waitlistFilter f \<noteq> []"
    using wd by (metis filter.simps(1) list.distinct(1))
  have nf: "\<not> orZero (CapacityIncludingLeads trip) \<le> int (length (filter rosterFilter f))"
    using both_open_not_full [OF assms(1,2)] by simp
  have "addFromWaitlist trip f = promote d"
    using assms(1,2) nf wl by (simp add: addFromWaitlist_def Let_def wd0)
  then show ?thesis using d dd
    by (simp add: promote_def Let_def selectedStatus_def updateSignup_def)
qed

theorem addFromWaitlist_prefers_driver_witness:
  "driverSpotsAvailable (mkTrip 4 2 2)
      [mkSignup ''a'' ''Ann'' True ''Selected (driver)'',
       mkSignup ''n'' ''Ned'' False ''Waitlist (nondriver) - 1'',
       mkSignup ''b'' ''Bob'' True ''Waitlist (driver) - 1'',
       mkSignup ''c'' ''Cy'' True ''Waitlist (driver) - 2''] > 0
   \<and> nonDriverSpotsAvailable (mkTrip 4 2 2)
      [mkSignup ''a'' ''Ann'' True ''Selected (driver)'',
       mkSignup ''n'' ''Ned'' False ''Waitlist (nondriver) - 1'',
       mkSignup ''b'' ''Bob'' True ''Waitlist (driver) - 1'',
       mkSignup ''c'' ''Cy'' True ''Waitlist (driver) - 2''] > 0
   \<and> waitlistFilter (mkSignup ''b'' ''Bob'' True ''Waitlist (driver) - 1'')
   \<and> waitlistFilter (mkSignup ''n'' ''Ned'' False ''Waitlist (nondriver) - 1'')
   \<and> addFromWaitlist (mkTrip 4 2 2)
      [mkSignup ''a'' ''Ann'' True ''Selected (driver)'',
       mkSignup ''n'' ''Ned'' False ''Waitlist (nondriver) - 1'',
       mkSignup ''b'' ''Bob'' True ''Waitlist (driver) - 1'',
       mkSignup ''c'' ''Cy'' True ''Waitlist (driver) - 2'']
     = Inr (mkSignup ''b'' ''Bob'' True ''Waitlist (driver) - 1'',
            PATCH ''b'' [(''Status'', StringValue ''Selected (driver)'')])"
proof -
  have l: "toLowerCase ''Selected (driver)'' = ''selected (driver)''"
    "toLowerCase ''Waitlist (nondriver) - 1'' = ''waitlist (nondriver) - 1''"
    "toLowerCase ''Waitlist (driver) - 1'' = ''waitlist (driver) - 1''"
    "toLowerCase ''Waitlist (driver) - 2'' = ''waitlist (driver) - 2''"
    by (simp_all add: toLowerCase_def charToLower_def)
  have f: "rosterFilter (mkSignup ''a'' ''Ann'' True ''Selected (driver)'')"
    "\<not> rosterFilter (mkSignup ''n'' ''Ned'' False ''Waitlist (nondriver) - 1'')"
    "\<not> rosterFilter (mkSignup ''b'' ''Bob'' True ''Waitlist (driver) - 1'')"
    "\<not> rosterFilter (mkSignup ''c'' ''Cy'' True ''Waitlist (driver) - 2'')"
    "\<not> waitlistFilter (mkSignup ''a'' ''Ann'' True ''Selected (driver)'')"
    "waitlistFilter (mkSignup ''n'' ''Ned'' False ''Waitlist (nondriver) - 1'')"
    "waitlistFilter (mkSignup ''b'' ''Bob'' True ''Waitlist (driver) - 1'')"
    "waitlistFilter (mkSignup ''c'' ''Cy'' True ''Waitlist (driver) - 2'')"
    by (simp_all add: rosterFilter_def waitlistFilter_def statusLower_def l Let_def)
  show ?thesis
    using addFromWaitlist_prefers_driver [of "mkTrip 4 2 2"
      "[mkSignup ''a'' ''Ann'' True ''Selected (driver)'',
        mkSignup ''n'' ''Ned'' False ''Waitlist (nondriver) - 1'',
        mkSignup ''b'' ''Bob'' True ''Waitlist (driver) - 1'',
        mkSignup ''c'' ''Cy'' True ''Waitlist (driver) - 2'']"]
    by (simp add: f driverSpotsAvailable_def nonDriverSpotsAvailable_def orZero_def Let_def)
qed

section \<open>Re-admission\<close>

lemma find_id_None: "find (\<lambda>s. signupId s = i) f = None \<longleftrightarrow> i \<notin> signupId ` set f"
  by (auto simp: find_None_iff)

text \<open>
  Claim C9. The re-admission answers \<open>ParticipantNotFound\<close> exactly when no fetched
  signup has the given id. When a signup has the id, the roster is below the capacity and
  a spot of the kind of the participant (driver or non-driver) is open, it succeeds and
  writes "Selected (driver)" or "Selected (nondriver)" according to the flag of that
  signup; its status is not looked at, so this holds as well for a participant who is on
  the roster or on the waitlist. When a signup has the id, the capacity checks are the
  only other outcomes: \<open>RosterFull\<close> when the roster has reached the capacity; otherwise
  \<open>NoDriverSpots\<close> for a driver when no driver spot is open, and \<open>NoNonDriverSpots\<close>
  for a non-driver when no non-driver spot is open.
\<close>

theorem reAddParticipant_ignores_status:
  "(reAddParticipant trip f participantId = Inl ParticipantNotFound
      \<longleftrightarrow> participantId \<notin> signupId ` set f)
   \<and> (\<forall>p. find (\<lambda>s. signupId s = participantId) f = Some p
          \<and> int (length (filter rosterFilter f)) < orZero (CapacityIncludingLeads trip)
          \<and> (if IsDriver p then driverSpotsAvailable trip f > 0
              else nonDriverSpotsAvailable trip f > 0)
        \<longrightarrow> reAddParticipant trip f participantId
              = Inr (PATCH participantId
                       [(''Status'', StringValue (selectedStatus (IsDriver p)))]))
   \<and> (\<forall>p. find (\<lambda>s. signupId s = participantId) f = Some p
          \<and> int (length (filter rosterFilter f)) \<ge> orZero (CapacityIncludingLeads trip)
        \<longrightarrow> reAddParticipant trip f participantId = Inl RosterFull)
   \<and> (\<forall>p. find (\<lambda>s. signupId s = participantId) f = Some p
          \<and> int (length (filter rosterFilter f)) < orZero (CapacityIncludingLeads trip)
          \<and> IsDriver p \<and> driverSpotsAvailable trip f \<le> 0
        \<longrightarrow> reAddParticipant trip f participantId = Inl NoDriverSpots)
   \<and> (\<forall>p. find (\<lambda>s. signupId s = participantId) f = Some p
          \<and> int (length (filter rosterFilter f)) < orZero (CapacityIncludingLeads trip)
          \<and> \<not> IsDriver p \<and> nonDriverSpotsAvailable trip f \<le> 0
        \<longrightarrow> reAddParticipant trip f participantId = Inl NoNonDriverSpots)"
proof (intro conjI allI impI)
  show "reAddParticipant trip f participantId = Inl ParticipantNotFound
      \<longleftrightarrow> participantId \<notin> signupId ` set f"
  proof (cases "find (\<lambda>s. signupId s = participantId) f")
    case None
    then show ?thesis
      using find_id_None [of participantId f] by (simp add: reAddParticipant_def Let_def)
  next
    case (Some p)
    then have "participantId \<in> signupId ` set f"
      using find_id_None [of participantId f] by simp
    moreover have "reAddParticipant trip f participantId \<noteq> Inl ParticipantNotFound"
      using Some by (simp add: reAddParticipant_def Let_def)
    ultimately show ?thesis by simp
  qed
next
  fix p
  assume a: "find (\<lambda>s. signupId s = participantId) f = Some p
          \<and> int (length (filter rosterFilter f)) < orZero (CapacityIncludingLeads trip)
          \<and> (if IsDriver p then driverSpotsAvailable trip f > 0
              else nonDriverSpotsAvailable trip f > 0)"
  show "reAddParticipant trip f participantId
              = Inr (PATCH participantId
                       [(''Status'', StringValue (selectedStatus (IsDriver p)))])"
  proof (cases "IsDriver p")
    case True
    then show ?thesis using a
      by (simp add: reAddParticipant_def Let_def driverSpotsAvailable_def
            updateSignup_def selectedStatus_def)
  next
    case False
    then show ?thesis using a
      by (simp add: reAddParticipant_def Let_def nonDriverSpotsAvailable_def
            updateSignup_def selectedStatus_def)
  qed
next
  fix p
  assume "find (\<lambda>s. signupId s = participantId) f = Some p
          \<and> int (length (filter rosterFilter f)) \<ge> orZero (CapacityIncludingLeads trip)"
  then show "reAddParticipant trip f participantId = Inl RosterFull"
    by (simp add: reAddParticipant_def Let_def)
next
  fix p
  assume "find (\<lambda>s. signupId s = participantId) f = Some p
          \<and> int (length (filter rosterFilter f)) < orZero (CapacityIncludingLeads trip)
          \<and> IsDriver p \<and> driverSpotsAvailable trip f \<le> 0"
  then show "reAddParticipant trip f participantId = Inl NoDriverSpots"
    by (simp add: reAddParticipant_def Let_def driverSpotsAvailable_def)
next
  fix p
  assume "find (\<lambda>s. signupId s = participantId) f = Some p
          \<and> int (length (filter rosterFilter f)) < orZero (CapacityIncludingLeads trip)
          \<and> \<not> IsDriver p \<and> nonDriverSpotsAvailable trip f \<le> 0"
  then show "reAddParticipant trip f participantId = Inl NoNonDriverSpots"
    by (simp add: reAddParticipant_def Let_def nonDriverSpotsAvailable_def)
qed

theorem reAddParticipant_ignores_status_witness:
  "find (\<lambda>s. signupId s = ''n'')
      [mkSignup ''a'' ''Ann'' True ''Selected (driver)'',
       mkSignup ''n'' ''Ned'' False ''Selected (nondriver)'']
     = Some (mkSignup ''n'' ''Ned'' False ''Selected (nondriver)'')
   \<and> rosterFilter (mkSignup ''n'' ''Ned'' False ''Selected (nondriver)'')
   \<and> \<not> droppedFilter (mkSignup ''n'' ''Ned'' False ''Selected (nondriver)'')
   \<and> int (length (filter rosterFilter
        [mkSignup ''a'' ''Ann'' True ''Selected (driver)'',
         mkSignup ''n'' ''Ned'' False ''Selected (nondriver)'']))
       < orZero (CapacityIncludingLeads (mkTrip 4 2 2))
   \<and> nonDriverSpotsAvailable (mkTrip 4 2 2)
        [mkSignup ''a'' ''Ann'' True ''Selected (driver)'',
         mkSignup ''n'' ''Ned'' False ''Selected (nondriver)''] > 0
   \<and> reAddParticipant (mkTrip 4 2 2)
        [mkSignup ''a'' ''Ann'' True ''Selected (driver)'',
         mkSignup ''n'' ''Ned'' False ''Selected (nondriver)''] ''n''
       = Inr (PATCH ''n'' [(''Status'', StringValue ''Selected (nondriver)'')])
   \<and> reAddParticipant (mkTrip 4 2 2)
        [mkSignup ''a'' ''Ann'' True ''Selected (driver)'',
         mkSignup ''n'' ''Ned'' False ''Selected (nondriver)''] ''x''
       = Inl ParticipantNotFound
   \<and> int (length (filter rosterFilter
        [mkSignup ''a'' ''Ann'' True ''Selected (driver)'',
         mkSignup ''n'' ''Ned'' False ''Selected (nondriver)'',
         mkSignup ''m'' ''Moe'' False ''Dropped- 11/03/2026'']))
       \<ge> orZero (CapacityIncludingLeads (mkTrip 2 1 1))
   \<and> reAddParticipant (mkTrip 2 1 1)
        [mkSignup ''a'' ''Ann'' True ''Selected (driver)'',
         mkSignup ''n'' ''Ned'' False ''Selected (nondriver)'',
         mkSignup ''m'' ''Moe'' False ''Dropped- 11/03/2026''] ''m''
       = Inl RosterFull
   \<and> driverSpotsAvailable (mkTrip 4 1 3)
        [mkSignup ''a'' ''Ann'' True ''Selected (driver)'',
         mkSignup ''d'' ''Dov'' True ''Dropped- 11/03/2026''] \<le> 0
   \<and> reAddParticipant (mkTrip 4 1 3)
        [mkSignup ''a'' ''Ann'' True ''Selected (driver)'',
         mkSignup ''d'' ''Dov'' True ''Dropped- 11/03/2026''] ''d''
       = Inl NoDriverSpots
   \<and> nonDriverSpotsAvailable (mkTrip 3 2 1)
        [mkSignup ''n'' ''Ned'' False ''Selected (nondriver)'',
         mkSignup ''m'' ''Moe'' False ''Dropped- 11/03/2026''] \<le> 0
   \<and> reAddParticipant (mkTrip 3 2 1)
        [mkSignup ''n'' ''Ned'' False ''Selected (nondriver)'',
         mkSignup ''m'' ''Moe'' False ''Dropped- 11/03/2026''] ''m''
       = Inl NoNonDriverSpots"
proof -
  have l: "toLowerCase ''Selected (driver)'' = ''selected (driver)''"
    "toLowerCase ''Selected (nondriver)'' = ''selected (nondriver)''"
    "toLowerCase ''Dropped- 11/03/2026'' = ''dropped- 11/03/2026''"
    by (simp_all add: toLowerCase_def charToLower_def)
  have f: "rosterFilter (mkSignup ''a'' ''Ann'' True ''Selected (driver)'')"
    "rosterFilter (mkSignup ''n'' ''Ned'' False ''Selected (nondriver)'')"
    "\<not> droppedFilter (mkSignup ''n'' ''Ned'' False ''Selected (nondriver)'')"
    "\<not> rosterFilter (mkSignup ''m'' ''Moe'' False ''Dropped- 11/03/2026'')"
    "\<not> rosterFilter (mkSignup ''d'' ''Dov'' True ''Dropped- 11/03/2026'')"
    by (simp_all add: rosterFilter_def droppedFilter_def statusLower_def l Let_def)
  show ?thesis
    using reAddParticipant_ignores_status [of "mkTrip 4 2 2"
        "[mkSignup ''a'' ''Ann'' True ''Selected (driver)'',
          mkSignup ''n'' ''Ned'' False ''Selected (nondriver)'']" "''n''"]
      reAddParticipant_ignores_status [of "mkTrip 4 2 2"
        "[mkSignup ''a'' ''Ann'' True ''Selected (driver)'',
          mkSignup ''n'' ''Ned'' False ''Selected (nondriver)'']" "''x''"]
      reAddParticipant_ignores_status [of "mkTrip 2 1 1"
        "[mkSignup ''a'' ''Ann'' True ''Selected (driver)'',
          mkSignup ''n'' ''Ned'' False ''Selected (nondriver)'',
          mkSignup ''m'' ''Moe'' False ''Dropped- 11/03/2026'']" "''m''"]
      reAddParticipant_ignores_status [of "mkTrip 4 1 3"
        "[mkSignup ''a'' ''Ann'' True ''Selected (driver)'',
          mkSignup ''d'' ''Dov'' True ''Dropped- 11/03/2026'']" "''d''"]
      reAddParticipant_ignores_status [of "mkTrip 3 2 1"
        "[mkSignup ''n'' ''Ned'' False ''Selected (nondriver)'',
          mkSignup ''m'' ''Moe'' False ''Dropped- 11/03/2026'']" "''m''"]
    by (simp add: f driverSpotsAvailable_def nonDriverSpotsAvailable_def orZero_def
          selectedStatus_def Let_def)
qed

section \<open>Dropping\<close>

lemma patch_status_fields:
  "recFields r ++ map_of [(''Status'', v)] = (recFields r)(''Status'' \<mapsto> v)"
  by (rule ext) (simp add: map_add_def)

lemma dropParticipant_request:
  "dropParticipant todayDate participantId
     = [PATCH participantId [(''Status'', StringValue (''Dropped- '' @ todayDate))]]"
  by (simp add: dropParticipant_def droppedStatus_def updateSignup_def Let_def)

lemma dropParticipant_store:
  "participantId \<in> recId ` set store \<Longrightarrow>
     storeApplyAll (dropParticipant todayDate participantId) store
       = Inr (map (\<lambda>r. if recId r = participantId
                         then r\<lparr>recFields := (recFields r)
                                (''Status'' \<mapsto> StringValue (''Dropped- '' @ todayDate))\<rparr>
                         else r) store)"
  by (simp add: dropParticipant_request storeApply_def patch_status_fields)

text \<open>
  Claim C8. For every participant id and every date of today, dropping sends exactly one request,
  a \<open>PATCH\<close> of that record whose body has the single field \<open>Status\<close> with the value
  "Dropped- MM/DD/YYYY"; the handler reads neither the trip nor the signups, so there is
  no check of capacity or of the previous status, and it sends no \<open>DELETE\<close>. Applied to
  a store that has the record, the request succeeds, the store keeps all its records, every
  field other than \<open>Status\<close> keeps its value, the record addressed gets the new status,
  and all other records are unchanged.
\<close>

theorem dropParticipant_soft_delete:
  "dropParticipant todayDate participantId
     = [PATCH participantId [(''Status'', StringValue (''Dropped- '' @ todayDate))]]
   \<and> (\<forall>store :: AirtableSignup list. participantId \<in> recId ` set store \<longrightarrow>
         (\<exists>store'. storeApplyAll (dropParticipant todayDate participantId) store = Inr store'
            \<and> length store' = length store
            \<and> (\<forall>k < length store.
                  recId (store' ! k) = recId (store ! k)
                  \<and> (\<forall>field. field \<noteq> ''Status'' \<longrightarrow>
                        recFields (store' ! k) field = recFields (store ! k) field)
                  \<and> (recId (store ! k) = participantId \<longrightarrow>
                        recFields (store' ! k) ''Status''
                          = Some (StringValue (''Dropped- '' @ todayDate)))
                  \<and> (recId (store ! k) \<noteq> participantId \<longrightarrow> store' ! k = store ! k))))"
proof (intro conjI allI impI)
  show "dropParticipant todayDate participantId
     = [PATCH participantId [(''Status'', StringValue (''Dropped- '' @ todayDate))]]"
    by (rule dropParticipant_request)
next
  fix store :: "AirtableSignup list"
  assume "participantId \<in> recId ` set store"
  note s = dropParticipant_store [OF this, of todayDate]
  show "\<exists>store'. storeApplyAll (dropParticipant todayDate participantId) store = Inr store'
            \<and> length store' = length store
            \<and> (\<forall>k < length store.
                  recId (store' ! k) = recId (store ! k)
                  \<and> (\<forall>field. field \<noteq> ''Status'' \<longrightarrow>
                        recFields (store' ! k) field = recFields (store ! k) field)
                  \<and> (recId (store ! k) = participantId \<longrightarrow>
                        recFields (store' ! k) ''Status''
                          = Some (StringValue (''Dropped- '' @ todayDate)))
                  \<and> (recId (store ! k) \<noteq> participantId \<longrightarrow> store' ! k = store ! k))"
    unfolding s by (rule exI, rule conjI, rule refl) simp
qed

theorem dropParticipant_soft_delete_witness:
  "''a'' \<in> recId ` set
      [\<lparr> recId = ''a'', recFields = [''Status'' \<mapsto> StringValue ''Selected (driver)'',
                                     ''Slack Name Refined'' \<mapsto> StringValue ''Ann''] \<rparr>,
       \<lparr> recId = ''b'', recFields = [''Status'' \<mapsto> StringValue ''Waitlist (nondriver) - 1''] \<rparr>]
   \<and> (case storeApplyAll (dropParticipant ''11/03/2026'' ''a'')
          [\<lparr> recId = ''a'', recFields = [''Status'' \<mapsto> StringValue ''Selected (driver)'',
                                         ''Slack Name Refined'' \<mapsto> StringValue ''Ann''] \<rparr>,
           \<lparr> recId = ''b'', recFields = [''Status'' \<mapsto> StringValue ''Waitlist (nondriver) - 1''] \<rparr>]
        of Inl e \<Rightarrow> False
         | Inr store' \<Rightarrow>
             map recId store' = [''a'', ''b'']
             \<and> map (\<lambda>r. recFields r ''Status'') store'
                 = [Some (StringValue ''Dropped- 11/03/2026''),
                    Some (StringValue ''Waitlist (nondriver) - 1'')]
             \<and> map (\<lambda>r. recFields r ''Slack Name Refined'') store'
                 = [Some (StringValue ''Ann''), None])"
  using dropParticipant_soft_delete [of "''11/03/2026''" "''a''"]
  by (simp add: storeApply_def)

end
